theory Spec2Isabelle
  imports Complex_Main "HOL-Library.Word" "HOL-Library.Char_ord" "HOL-Library.List_Lexorder"
begin

unbundle bit_operations_syntax

section \<open>Common types\<close>

text \<open>
  The C++ exceptions the modelled functions throw, as values: \<open>std::invalid_argument\<close>,
  \<open>std::out_of_range\<close>, \<open>std::runtime_error\<close> and the \<open>type_error\<close> of the JSON library.
  The payload is the \<open>what()\<close> text.  \<open>Fault\<close> is not an exception: it is an operation
  with undefined behaviour that ends the process (an integer division by zero).
\<close>

datatype error =
    InvalidArgument string
  | OutOfRange string
  | RuntimeError string
  | TypeError string
  | Fault string

type_synonym u8 = "8 word"
type_synonym u16 = "16 word"
type_synonym u32 = "32 word"

section \<open>BER length (protocols/include/BER_Encoding.hpp, sniffer/src/sniffer.cpp)\<close>

text \<open>
  \<open>encodeBERLength(size_t length)\<close>.  A \<open>size_t\<close> is a natural number; the function is
  modelled on all of \<open>nat\<close>.  \<open>static_cast<uint8_t>\<close> is \<open>of_nat\<close> into \<open>8 word\<close>
  (truncation), \<open>length >> 8\<close> is \<open>drop_bit 8\<close>, \<open>& 0xFF\<close> is \<open>AND 255\<close>.
\<close>

definition encodeBERLength :: "nat \<Rightarrow> error + u8 list" where
  "encodeBERLength len =
     (if len \<le> 127 then Inr [of_nat len]
      else if len \<le> 255 then Inr [0x81, of_nat len]
      else if len \<le> 65535 then
        Inr [0x82, of_nat (drop_bit 8 len AND 0xFF), of_nat (len AND 0xFF)]
      else Inl (RuntimeError ''BER length > 65535 not supported''))"

text \<open>
  The length reader of the sniffer (the SAVPDU, ASDU and field lengths of
  \<open>process_SV_packet\<close> are all read by this code): at offset \<open>i\<close> of a frame of
  \<open>frameSize = length frame\<close> bytes, \<open>0x82\<close> announces two length bytes, \<open>0x81\<close> one, any
  other byte is the length itself.  The result is the length and the offset after the
  length field; \<open>None\<close> is the early return on a truncated frame.
\<close>

definition parseBERLength :: "u8 list \<Rightarrow> nat \<Rightarrow> (nat \<times> nat) option" where
  "parseBERLength frame i =
     (if i \<ge> length frame then None
      else if frame ! i = 0x82 then
        (if i + 3 > length frame then None
         else Some (push_bit 8 (unat (frame ! (i + 1))) OR unat (frame ! (i + 2)), i + 3))
      else if frame ! i = 0x81 then
        (if i + 2 > length frame then None
         else Some (unat (frame ! (i + 1)), i + 2))
      else Some (unat (frame ! i), i + 1))"

section \<open>String to integer (the C++ standard library's \<open>std::stoi\<close>)\<close>

text \<open>
  \<open>std::stoi(str, nullptr, base)\<close> is not code of the repository; it is modelled after the
  C and C++ standards.  It calls \<open>strtol\<close> on \<open>str.c_str()\<close> (the characters up to the
  first NUL): leading white space is skipped, one sign is accepted, in base 16 a \<open>0x\<close> or
  \<open>0X\<close> prefix is skipped when a hexadecimal digit follows it, and then the longest run of
  digits of the base is read; whatever follows is ignored.  When no digit was read,
  \<open>std::stoi\<close> throws \<open>std::invalid_argument\<close>; when the value does not fit a 32-bit
  \<open>int\<close>, it throws \<open>std::out_of_range\<close>.
\<close>

definition isspace :: "char \<Rightarrow> bool" where
  "isspace c = (c = CHR '' '' \<or> (9 \<le> (of_char c :: nat) \<and> (of_char c :: nat) \<le> 13))"

definition digit_value :: "char \<Rightarrow> nat option" where
  "digit_value c =
     (let n = (of_char c :: nat) in
      if 48 \<le> n \<and> n \<le> 57 then Some (n - 48)
      else if 97 \<le> n \<and> n \<le> 122 then Some (n - 87)
      else if 65 \<le> n \<and> n \<le> 90 then Some (n - 55)
      else None)"

definition is_digit_in :: "nat \<Rightarrow> char \<Rightarrow> bool" where
  "is_digit_in base c = (case digit_value c of None \<Rightarrow> False | Some d \<Rightarrow> d < base)"

fun digits_value :: "nat \<Rightarrow> nat \<Rightarrow> string \<Rightarrow> nat" where
  "digits_value base acc [] = acc"
| "digits_value base acc (c # cs) =
     (case digit_value c of
        None \<Rightarrow> acc
      | Some d \<Rightarrow> if d < base then digits_value base (acc * base + d) cs else acc)"

definition strtol :: "string \<Rightarrow> nat \<Rightarrow> int option" where
  "strtol str base =
     (let s0 = takeWhile (\<lambda>c. c \<noteq> CHR 0x00) str;
          s1 = dropWhile isspace s0;
          neg = (case s1 of [] \<Rightarrow> False | c # _ \<Rightarrow> c = CHR ''-'');
          s2 = (case s1 of [] \<Rightarrow> s1
                | c # cs \<Rightarrow> if c = CHR ''-'' \<or> c = CHR ''+'' then cs else s1);
          s3 = (case s2 of
                  c0 # cx # ch # cs \<Rightarrow>
                    if base = 16 \<and> c0 = CHR ''0'' \<and> (cx = CHR ''x'' \<or> cx = CHR ''X'')
                       \<and> is_digit_in 16 ch
                    then ch # cs else s2
                | _ \<Rightarrow> s2)
      in case s3 of
           [] \<Rightarrow> None
         | c # _ \<Rightarrow>
             if is_digit_in base c
             then Some ((if neg then - 1 else 1) * int (digits_value base 0 s3))
             else None)"

text \<open>
  \<open>std::stoul\<close> reads the same syntax through \<open>strtoul\<close>; the result is an
  \<open>unsigned long\<close> of 64 bits, a negative text is negated in that type, and a magnitude
  beyond 64 bits is \<open>std::out_of_range\<close>.
\<close>

definition stoul :: "string \<Rightarrow> nat \<Rightarrow> error + nat" where
  "stoul str base =
     (case strtol str base of
        None \<Rightarrow> Inl (InvalidArgument ''stoul'')
      | Some v \<Rightarrow>
          if \<bar>v\<bar> > 18446744073709551615 then Inl (OutOfRange ''stoul'')
          else Inr (nat (v mod 18446744073709551616)))"

definition stoi :: "string \<Rightarrow> nat \<Rightarrow> error + int" where
  "stoi str base =
     (case strtol str base of
        None \<Rightarrow> Inl (InvalidArgument ''stoi'')
      | Some v \<Rightarrow>
          if v < - 2147483648 \<or> 2147483647 < v then Inl (OutOfRange ''stoi'') else Inr v)"

section \<open>MAC address parsing (protocols/include/Ethernet.hpp)\<close>

text \<open>
  \<open>Ethernet::macStrToBytes\<close>.  \<open>substr mac i 2\<close> is \<open>mac.substr(i, 2)\<close>.  The loop runs on
  \<open>i\<close> and \<open>byteIdx\<close>; \<open>bytes\<close> holds the entries of the array written so far
  (\<open>bytes[byteIdx]\<close> is always the next one, so the write is an append).  Any exception of
  \<open>std::stoi\<close> is caught and replaced by \<open>std::invalid_argument\<close>; the value is cast to
  \<open>uint8_t\<close>.
\<close>

definition substr :: "string \<Rightarrow> nat \<Rightarrow> nat \<Rightarrow> string" where
  "substr s pos n = take n (drop pos s)"

function macStrToBytes_loop :: "string \<Rightarrow> nat \<Rightarrow> nat \<Rightarrow> u8 list \<Rightarrow> error + u8 list" where
  "macStrToBytes_loop mac i byteIdx bytes =
     (if i < length mac \<and> byteIdx < 6 then
        (if byteIdx > 0 \<and> mac ! (i - 1) \<noteq> CHR '':'' then
           Inl (InvalidArgument ''Invalid MAC address: missing colon separator'')
         else if i + 1 \<ge> length mac then
           Inl (InvalidArgument ''Invalid MAC address: truncated byte'')
         else
           (case stoi (substr mac i 2) 16 of
              Inl e \<Rightarrow> Inl (InvalidArgument ''Invalid MAC address: non-hex digit'')
            | Inr v \<Rightarrow> macStrToBytes_loop mac (i + 3) (byteIdx + 1) (bytes @ [word_of_int v])))
      else Inr bytes)"
  by pat_completeness auto
termination
  by (relation "measure (\<lambda>(mac, i, byteIdx, bytes). 6 - byteIdx)") auto

definition macStrToBytes :: "string \<Rightarrow> error + u8 list" where
  "macStrToBytes mac =
     (if length mac \<noteq> 17 then
        Inl (InvalidArgument ''Invalid MAC address format: expected XX:XX:XX:XX:XX:XX'')
      else macStrToBytes_loop mac 0 0 [])"

text \<open>
  The shape \<open>XX:XX:XX:XX:XX:XX\<close>: seventeen characters, a colon at the positions 2, 5, 8,
  11 and 14, a hexadecimal digit at every other position; and the byte two hexadecimal
  digits denote.
\<close>

fun mac_shape_from :: "nat \<Rightarrow> string \<Rightarrow> bool" where
  "mac_shape_from k [] = True"
| "mac_shape_from k (c # cs) =
     ((if k mod 3 = 2 then c = CHR '':'' else is_digit_in 16 c) \<and> mac_shape_from (Suc k) cs)"

definition mac_shape :: "string \<Rightarrow> bool" where
  "mac_shape mac = (length mac = 17 \<and> mac_shape_from 0 mac)"

definition hex_pair :: "char \<Rightarrow> char \<Rightarrow> u8" where
  "hex_pair hi lo =
     (case (digit_value hi, digit_value lo) of
        (Some a, Some b) \<Rightarrow> of_nat (16 * a + b)
      | _ \<Rightarrow> 0)"

section \<open>Trip rule engine (sniffer/include/trip_rule_evaluator.hpp, sniffer/src/trip_rule_evaluator.cpp)\<close>

text \<open>
  \<open>double\<close> is modelled by \<open>real\<close>: rounding, infinities and NaN are outside the model.
  \<open>int32_t\<close> values are integers; the rule engine only compares them.  The enumerators
  \<open>AND\<close>, \<open>OR\<close> and \<open>NOT\<close> of \<open>RuleOp\<close> carry the prefix \<open>RuleOp_\<close>, since the plain names
  are the bit operations of HOL.
\<close>

record GooseDataPoint =
  path :: string
  boolValue :: bool
  intValue :: int
  floatValue :: real
  dataType :: string

datatype RuleOp =
    EQUALS | NOT_EQUALS | GREATER_THAN | LESS_THAN | GREATER_EQUAL | LESS_EQUAL
  | RuleOp_AND | RuleOp_OR | RuleOp_NOT

datatype RuleNode =
    ComparisonNode string RuleOp string
  | BinaryOpNode RuleNode RuleNode RuleOp
  | UnaryOpNode RuleNode RuleOp

text \<open>
  \<open>RuleNode::evaluate\<close>, one equation per node class.  The fields of \<open>ComparisonNode\<close> are
  \<open>dataPath\<close>, \<open>operation\<close>, \<open>compareValue\<close>; those of \<open>BinaryOpNode\<close> are \<open>left\<close>, \<open>right\<close>,
  \<open>operation\<close>; those of \<open>UnaryOpNode\<close> are \<open>operand\<close>, \<open>operation\<close>.  An exception thrown
  by \<open>std::stoi\<close> or \<open>std::stod\<close> leaves \<open>evaluate\<close> and is the \<open>Inl\<close> result.  \<open>std::stod\<close>
  is a parameter of the model (\<open>stod\<close>): the text-to-double conversion of the standard
  library, which throws when no conversion can be performed or the value is out of range.
  \<open>BinaryOpNode::evaluate\<close> computes \<open>leftVal\<close> and then \<open>rightVal\<close> before it looks at the
  operation.
\<close>

fun evaluate ::
  "(string \<Rightarrow> error + real) \<Rightarrow> (string \<rightharpoonup> GooseDataPoint) \<Rightarrow> RuleNode \<Rightarrow> error + bool"
where
  "evaluate stod dataPoints (ComparisonNode dataPath operation compareValue) =
     (case dataPoints dataPath of
        None \<Rightarrow> Inr False
      | Some dp \<Rightarrow>
          if dataType dp = ''bool'' then
            (let compareVal = (compareValue = ''true'' \<or> compareValue = ''1'') in
             case operation of
               EQUALS \<Rightarrow> Inr (boolValue dp = compareVal)
             | NOT_EQUALS \<Rightarrow> Inr (boolValue dp \<noteq> compareVal)
             | _ \<Rightarrow> Inr False)
          else if dataType dp = ''int'' then
            (case stoi compareValue 10 of
               Inl e \<Rightarrow> Inl e
             | Inr compareVal \<Rightarrow>
                 (case operation of
                    EQUALS \<Rightarrow> Inr (intValue dp = compareVal)
                  | NOT_EQUALS \<Rightarrow> Inr (intValue dp \<noteq> compareVal)
                  | GREATER_THAN \<Rightarrow> Inr (intValue dp > compareVal)
                  | LESS_THAN \<Rightarrow> Inr (intValue dp < compareVal)
                  | GREATER_EQUAL \<Rightarrow> Inr (intValue dp \<ge> compareVal)
                  | LESS_EQUAL \<Rightarrow> Inr (intValue dp \<le> compareVal)
                  | _ \<Rightarrow> Inr False))
          else if dataType dp = ''float'' then
            (case stod compareValue of
               Inl e \<Rightarrow> Inl e
             | Inr compareVal \<Rightarrow>
                 (case operation of
                    EQUALS \<Rightarrow> Inr (\<bar>floatValue dp - compareVal\<bar> < 1 / 1000000)
                  | NOT_EQUALS \<Rightarrow> Inr (\<bar>floatValue dp - compareVal\<bar> \<ge> 1 / 1000000)
                  | GREATER_THAN \<Rightarrow> Inr (floatValue dp > compareVal)
                  | LESS_THAN \<Rightarrow> Inr (floatValue dp < compareVal)
                  | GREATER_EQUAL \<Rightarrow> Inr (floatValue dp \<ge> compareVal)
                  | LESS_EQUAL \<Rightarrow> Inr (floatValue dp \<le> compareVal)
                  | _ \<Rightarrow> Inr False))
          else Inr False)"
| "evaluate stod dataPoints (BinaryOpNode left right operation) =
     (case evaluate stod dataPoints left of
        Inl e \<Rightarrow> Inl e
      | Inr leftVal \<Rightarrow>
          (case evaluate stod dataPoints right of
             Inl e \<Rightarrow> Inl e
           | Inr rightVal \<Rightarrow>
               (case operation of
                  RuleOp_AND \<Rightarrow> Inr (leftVal \<and> rightVal)
                | RuleOp_OR \<Rightarrow> Inr (leftVal \<or> rightVal)
                | _ \<Rightarrow> Inr False)))"
| "evaluate stod dataPoints (UnaryOpNode operand operation) =
     (case evaluate stod dataPoints operand of
        Inl e \<Rightarrow> Inl e
      | Inr val \<Rightarrow>
          (case operation of
             RuleOp_NOT \<Rightarrow> Inr (\<not> val)
           | _ \<Rightarrow> Inr False))"

text \<open>
  The evaluator object; its members \<open>rules_\<close>, \<open>dataPoints_\<close> and \<open>lastError_\<close> lose the
  trailing underscore, which a HOL name cannot end with.  \<open>rules\<close> is a \<open>std::map<std::string, TripRule>\<close>: an ordered
  container, modelled by the list of its entries in iteration order, which is the order
  of the keys (\<open>std::string\<close> compares byte-wise and a proper prefix is smaller: the
  lexicographic order of \<open>string\<close> over the order of \<open>char\<close> by code).  \<open>dataPoints\<close> is only
  searched by key and is a map.  A null \<open>ast\<close> pointer is \<open>None\<close>.
\<close>

record TripRule =
  name :: string
  expression :: string
  ast :: "RuleNode option"
  enabled :: bool

record TripRuleResult =
  triggered :: bool
  ruleName :: string
  message :: string
  timestamp :: nat

record TripRuleEvaluator =
  rules :: "(string \<times> TripRule) list"
  dataPoints :: "string \<rightharpoonup> GooseDataPoint"
  lastError :: string

definition TripRuleEvaluator_new :: TripRuleEvaluator where
  "TripRuleEvaluator_new = \<lparr> rules = [], dataPoints = Map.empty, lastError = [] \<rparr>"

text \<open>
  \<open>rules_[key] = value\<close> and \<open>rules_.erase(key)\<close> on the ordered list, and the change of
  the entry that \<open>rules_.find(key)\<close> finds, if it finds one.
\<close>

fun map_assign :: "string \<Rightarrow> 'v \<Rightarrow> (string \<times> 'v) list \<Rightarrow> (string \<times> 'v) list" where
  "map_assign key v [] = [(key, v)]"
| "map_assign key v ((k, w) # rest) =
     (if key < k then (key, v) # (k, w) # rest
      else if key = k then (k, v) # rest
      else (k, w) # map_assign key v rest)"

fun map_erase :: "string \<Rightarrow> (string \<times> 'v) list \<Rightarrow> (string \<times> 'v) list" where
  "map_erase key [] = []"
| "map_erase key ((k, w) # rest) = (if key = k then rest else (k, w) # map_erase key rest)"

fun map_modify :: "string \<Rightarrow> ('v \<Rightarrow> 'v) \<Rightarrow> (string \<times> 'v) list \<Rightarrow> (string \<times> 'v) list" where
  "map_modify key f [] = []"
| "map_modify key f ((k, w) # rest) =
     (if key = k then (k, f w) # rest else (k, w) # map_modify key f rest)"

text \<open>
  \<open>addRule\<close>.  The recursive-descent parser \<open>parseExpression\<close> is a parameter of the model:
  for an expression it gives the text it leaves in \<open>lastError_\<close> (which \<open>addRule\<close> has
  cleared before) and the AST, \<open>None\<close> for the null pointer of a rejected expression.  The
  properties below hold for every parser.
\<close>

definition addRule ::
  "(string \<Rightarrow> string \<times> RuleNode option) \<Rightarrow> string \<Rightarrow> string \<Rightarrow> TripRuleEvaluator
   \<Rightarrow> bool \<times> TripRuleEvaluator" where
  "addRule parseExpression nm expr ev =
     (case parseExpression expr of
        (err, None) \<Rightarrow> (False, ev\<lparr>lastError := err\<rparr>)
      | (err, Some node) \<Rightarrow>
          (True, ev\<lparr>lastError := err,
                   rules := map_assign nm
                     \<lparr>name = nm, expression = expr, ast = Some node, enabled = True\<rparr>
                     (rules ev)\<rparr>))"

definition removeRule :: "string \<Rightarrow> TripRuleEvaluator \<Rightarrow> TripRuleEvaluator" where
  "removeRule nm ev = ev\<lparr>rules := map_erase nm (rules ev)\<rparr>"

definition setRuleEnabled :: "string \<Rightarrow> bool \<Rightarrow> TripRuleEvaluator \<Rightarrow> TripRuleEvaluator" where
  "setRuleEnabled nm en ev =
     ev\<lparr>rules := map_modify nm (\<lambda>rule. rule\<lparr>enabled := en\<rparr>) (rules ev)\<rparr>"

definition clearRules :: "TripRuleEvaluator \<Rightarrow> TripRuleEvaluator" where
  "clearRules ev = ev\<lparr>rules := []\<rparr>"

definition updateDataPoint_bool :: "string \<Rightarrow> bool \<Rightarrow> TripRuleEvaluator \<Rightarrow> TripRuleEvaluator" where
  "updateDataPoint_bool p v ev =
     ev\<lparr>dataPoints := (dataPoints ev)(p \<mapsto>
       \<lparr>path = p, boolValue = v, intValue = 0, floatValue = 0, dataType = ''bool''\<rparr>)\<rparr>"

definition updateDataPoint_int :: "string \<Rightarrow> int \<Rightarrow> TripRuleEvaluator \<Rightarrow> TripRuleEvaluator" where
  "updateDataPoint_int p v ev =
     ev\<lparr>dataPoints := (dataPoints ev)(p \<mapsto>
       \<lparr>path = p, boolValue = False, intValue = v, floatValue = 0, dataType = ''int''\<rparr>)\<rparr>"

definition updateDataPoint_double :: "string \<Rightarrow> real \<Rightarrow> TripRuleEvaluator \<Rightarrow> TripRuleEvaluator" where
  "updateDataPoint_double p v ev =
     ev\<lparr>dataPoints := (dataPoints ev)(p \<mapsto>
       \<lparr>path = p, boolValue = False, intValue = 0, floatValue = v, dataType = ''float''\<rparr>)\<rparr>"

text \<open>
  \<open>TripRuleEvaluator::evaluate\<close>: the loop over \<open>rules\<close> in iteration order.  \<open>result\<close> is
  the default-constructed result with the time stamp filled in (\<open>now\<close>, the system clock in
  microseconds); \<open>what\<close> is the text of an exception.
\<close>

fun what :: "error \<Rightarrow> string" where
  "what (InvalidArgument m) = m"
| "what (OutOfRange m) = m"
| "what (RuntimeError m) = m"
| "what (TypeError m) = m"
| "what (Fault m) = m"

fun evaluate_loop ::
  "(string \<Rightarrow> error + real) \<Rightarrow> (string \<rightharpoonup> GooseDataPoint) \<Rightarrow> (string \<times> TripRule) list
   \<Rightarrow> TripRuleResult \<Rightarrow> TripRuleResult" where
  "evaluate_loop stod dps [] result =
     result\<lparr>triggered := False, message := ''No trip rules triggered''\<rparr>"
| "evaluate_loop stod dps ((key, rule) # rest) result =
     (case ast rule of
        None \<Rightarrow> evaluate_loop stod dps rest result
      | Some node \<Rightarrow>
          if \<not> enabled rule then evaluate_loop stod dps rest result
          else
            (case evaluate stod dps node of
               Inr True \<Rightarrow>
                 result\<lparr>triggered := True, ruleName := name rule,
                        message := ''Trip rule triggered: '' @ expression rule\<rparr>
             | Inr False \<Rightarrow> evaluate_loop stod dps rest result
             | Inl e \<Rightarrow>
                 result\<lparr>triggered := False,
                        message := ''Error evaluating rule '' @ [CHR 0x27] @ name rule
                                   @ [CHR 0x27] @ '': '' @ what e\<rparr>))"

definition TripRuleEvaluator_evaluate ::
  "(string \<Rightarrow> error + real) \<Rightarrow> nat \<Rightarrow> TripRuleEvaluator \<Rightarrow> TripRuleResult" where
  "TripRuleEvaluator_evaluate stod now ev =
     evaluate_loop stod (dataPoints ev) (rules ev)
       \<lparr>triggered = False, ruleName = [], message = [], timestamp = now\<rparr>"

text \<open>
  A rule holds when it is enabled, has an AST, and the AST evaluates to true; a rule
  fails when it is enabled and the evaluation of its AST throws.  \<open>rules_inv\<close> is the
  invariant of \<open>rules\<close>: the keys are strictly increasing and every entry carries its
  key as its name.
\<close>

definition rule_holds ::
  "(string \<Rightarrow> error + real) \<Rightarrow> (string \<rightharpoonup> GooseDataPoint) \<Rightarrow> TripRule \<Rightarrow> bool" where
  "rule_holds stod dps rule =
     (enabled rule \<and> (case ast rule of None \<Rightarrow> False | Some node \<Rightarrow> evaluate stod dps node = Inr True))"

definition rule_fails ::
  "(string \<Rightarrow> error + real) \<Rightarrow> (string \<rightharpoonup> GooseDataPoint) \<Rightarrow> TripRule \<Rightarrow> bool" where
  "rule_fails stod dps rule =
     (enabled rule \<and> (case ast rule of None \<Rightarrow> False | Some node \<Rightarrow> isl (evaluate stod dps node)))"

definition rules_inv :: "(string \<times> TripRule) list \<Rightarrow> bool" where
  "rules_inv rs = (sorted_wrt (<) (map fst rs) \<and> list_all (\<lambda>(k, rule). name rule = k) rs)"

text \<open>
  A text-to-double conversion that refuses every text, for the examples, none of which
  has a float data point.
\<close>

definition stod_refuse :: "string \<Rightarrow> error + real" where
  "stod_refuse s = Inl (InvalidArgument ''stod'')"

text \<open>
  A stand-in for the parser in the examples, on the one expression they install: from
  \<open>A == true\<close> the parser of the repository builds the comparison of the data point \<open>A\<close>
  with the literal \<open>true\<close> by \<open>EQUALS\<close> and leaves no error text.  On other expressions
  the stand-in stands for no run of the program.
\<close>

definition example_parser :: "string \<Rightarrow> string \<times> RuleNode option" where
  "example_parser expr =
     (if expr = ''A == true'' then ([], Some (ComparisonNode ''A'' EQUALS ''true''))
      else (''not an expression of the examples'', None))"

section \<open>SV publisher (core/include/sv_publisher_instance.hpp, core/src/sv_publisher_instance.cpp)\<close>

text \<open>
  A JSON value of the library the program uses (\<open>nlohmann::json\<close>), as far as the
  publisher code looks at it: an object is the list of its members.
\<close>

datatype json =
    JNull
  | JBool bool
  | JInt int
  | JFloat real
  | JString string
  | JArray "json list"
  | JObject "(string \<times> json) list"

datatype DataSource = MANUAL | COMTRADE | CSV

record SVConfig =
  appId :: string
  macDst :: string
  macSrc :: string
  vlanId :: u16
  vlanPrio :: u8
  svId :: string
  dstAddress :: string
  nominalFreq :: real
  sampleRate :: u32
  dataSource :: DataSource
  filePath :: string

record Phasor =
  magnitude :: real
  angle :: real

text \<open>
  The members of \<open>SVPublisherInstance\<close> (\<open>id_\<close>, \<open>config_\<close>, \<open>running_\<close>, \<open>phasors_\<close>,
  \<open>harmonics_\<close>, \<open>sampleCounter_\<close>, \<open>rawSocket_\<close>), without the trailing underscore; \<open>id_\<close> is
  \<open>inst_id\<close>.
\<close>

record SVPublisherInstance =
  inst_id :: string
  config :: SVConfig
  running :: bool
  phasors :: "Phasor list"
  harmonics :: json
  sampleCounter :: u32
  rawSocket :: int

text \<open>
  The constructor, on Linux: \<open>fd\<close> is what \<open>socket(AF_PACKET, SOCK_RAW, ...)\<close> returns.  A
  negative \<open>fd\<close> makes \<open>initRawSocket\<close> throw \<open>std::runtime_error\<close> with a text that ends
  with \<open>strerror(errno)\<close>; that text of the C library is the parameter \<open>errno_text\<close>.
\<close>

definition SVPublisherInstance_new ::
  "string \<Rightarrow> SVConfig \<Rightarrow> int \<Rightarrow> string \<Rightarrow> error + SVPublisherInstance" where
  "SVPublisherInstance_new ident cfg fd errno_text =
     (if fd < 0 then Inl (RuntimeError (''Failed to create raw socket: '' @ errno_text))
      else Inr \<lparr> inst_id = ident, config = cfg, running = False,
                 phasors = (if dataSource cfg = MANUAL
                            then replicate 8 \<lparr>magnitude = 0, angle = 0\<rparr> else []),
                 harmonics = JArray [], sampleCounter = 0, rawSocket = fd \<rparr>)"

definition start :: "SVPublisherInstance \<Rightarrow> SVPublisherInstance" where
  "start p = p\<lparr>running := True, sampleCounter := 0\<rparr>"

definition stop :: "SVPublisherInstance \<Rightarrow> SVPublisherInstance" where
  "stop p = p\<lparr>running := False\<rparr>"

definition setConfig :: "SVConfig \<Rightarrow> SVPublisherInstance \<Rightarrow> SVPublisherInstance" where
  "setConfig cfg p = p\<lparr>config := cfg\<rparr>"

definition setPhasors :: "Phasor list \<Rightarrow> SVPublisherInstance \<Rightarrow> SVPublisherInstance" where
  "setPhasors ps p = p\<lparr>phasors := ps\<rparr>"

definition setHarmonics :: "json \<Rightarrow> SVPublisherInstance \<Rightarrow> SVPublisherInstance" where
  "setHarmonics h p = p\<lparr>harmonics := h\<rparr>"

text \<open>
  \<open>generateSamples\<close> gives one sample per phasor.  For the data source \<open>MANUAL\<close> the sample
  is computed in floating point from the sample counter, the configuration and the
  phasor, and converted by \<open>static_cast<int16_t>\<close>.  That computation is the parameter
  \<open>synthesise\<close> of the model; it answers \<open>None\<close> where the floating-point value is outside
  the range of \<open>int16_t\<close>, for which the conversion is undefined.  The other two data
  sources give zeros.
\<close>

definition generateSamples ::
  "(u32 \<Rightarrow> SVConfig \<Rightarrow> Phasor \<Rightarrow> 16 word option) \<Rightarrow> SVPublisherInstance
   \<Rightarrow> error + 16 word list" where
  "generateSamples synthesise p =
     (case dataSource (config p) of
        MANUAL \<Rightarrow>
          (case those (map (synthesise (sampleCounter p) (config p)) (phasors p)) of
             None \<Rightarrow> Inl (Fault ''conversion to int16_t out of range'')
           | Some samples \<Rightarrow> Inr samples)
      | COMTRADE \<Rightarrow> Inr (replicate (length (phasors p)) 0)
      | CSV \<Rightarrow> Inr (replicate (length (phasors p)) 0))"

text \<open>
  The frame \<open>sendSVPacket\<close> assembles in the local buffer \<open>uint8_t frame[MAX_SV_FRAME_SIZE]\<close>,
  by field, in wire order after the two addresses (which \<open>sscanf\<close> fills in, not
  modelled).  Every 16- and 32-bit field is written big-endian (\<open>htons\<close>, \<open>htonl\<close>); the
  record holds the values, and \<open>frameLength\<close> is the final \<open>offset\<close>, the number of bytes
  handed to \<open>sendto\<close>.
\<close>

definition MAX_SV_FRAME_SIZE :: nat where
  "MAX_SV_FRAME_SIZE = 1518"

record SVFrame =
  tci :: u16
  appIdField :: u16
  lengthField :: u16
  svIdField :: string
  smpCnt :: u16
  confRev :: u32
  smpSynch :: u8
  sampleValues :: "(u32 \<times> u32) list"
  frameLength :: nat

text \<open>
  \<open>sendSVPacket\<close>: \<open>Inr None\<close> is the early return without a socket, \<open>Inr (Some f)\<close> the
  frame handed to \<open>sendto\<close> (whose result is ignored).  \<open>std::stoul\<close> on \<open>appId\<close> may
  throw, and \<open>sampleCounter_ % config_.sampleRate\<close> with a zero rate is an integer
  division by zero.  The bytes are written with no check against the size of the buffer:
  32 bytes of fixed fields, \<open>svIdLen\<close> bytes of \<open>svId\<close> (at most 255) and 8 bytes per
  sample.  The fields before the samples always fit; the loop over the samples writes
  past the end of the buffer when \<open>32 + svIdLen + 8 * samples.size()\<close> exceeds
  \<open>MAX_SV_FRAME_SIZE\<close>, which is undefined behaviour.
\<close>

definition sendSVPacket ::
  "(u32 \<Rightarrow> SVConfig \<Rightarrow> Phasor \<Rightarrow> 16 word option) \<Rightarrow> SVPublisherInstance
   \<Rightarrow> error + SVFrame option" where
  "sendSVPacket synthesise p =
     (if rawSocket p < 0 then Inr None
      else
        case generateSamples synthesise p of
          Inl e \<Rightarrow> Inl e
        | Inr samples \<Rightarrow>
            (let cfg = config p;
                 svIdLen = length (svId cfg) mod 256
             in case stoul (appId cfg) 16 of
                  Inl e \<Rightarrow> Inl e
                | Inr a \<Rightarrow>
                    if sampleRate cfg = 0 then Inl (Fault ''integer division by zero'')
                    else if MAX_SV_FRAME_SIZE < 32 + svIdLen + 8 * length samples
                    then Inl (Fault ''write past the end of the frame buffer'')
                    else Inr (Some
                      \<lparr> tci = push_bit 13 (ucast (vlanPrio cfg)) OR (vlanId cfg AND 0x0FFF),
                        appIdField = of_nat a,
                        lengthField = of_nat (length samples * 8 + 20),
                        svIdField = take svIdLen (svId cfg),
                        smpCnt = ucast (sampleCounter p mod sampleRate cfg),
                        confRev = 1,
                        smpSynch = 0x01,
                        sampleValues = map (\<lambda>s. (scast s, 0)) samples,
                        frameLength = 32 + svIdLen + 8 * length samples \<rparr>)))"

text \<open>\<open>tick\<close>: the new state and the frame put on the wire, if any.\<close>

definition tick ::
  "(u32 \<Rightarrow> SVConfig \<Rightarrow> Phasor \<Rightarrow> 16 word option) \<Rightarrow> SVPublisherInstance
   \<Rightarrow> error + (SVPublisherInstance \<times> SVFrame option)" where
  "tick synthesise p =
     (if \<not> running p then Inr (p, None)
      else case sendSVPacket synthesise p of
             Inl e \<Rightarrow> Inl e
           | Inr out \<Rightarrow> Inr (p\<lparr>sampleCounter := sampleCounter p + 1\<rparr>, out))"

text \<open>\<open>n\<close> consecutive calls of \<open>tick\<close>, with the frames in the order of emission.\<close>

fun ticks ::
  "(u32 \<Rightarrow> SVConfig \<Rightarrow> Phasor \<Rightarrow> 16 word option) \<Rightarrow> nat \<Rightarrow> SVPublisherInstance
   \<Rightarrow> error + (SVPublisherInstance \<times> SVFrame option list)" where
  "ticks synthesise 0 p = Inr (p, [])"
| "ticks synthesise (Suc n) p =
     (case tick synthesise p of
        Inl e \<Rightarrow> Inl e
      | Inr (p', out) \<Rightarrow>
          (case ticks synthesise n p' of
             Inl e \<Rightarrow> Inl e
           | Inr (p'', outs) \<Rightarrow> Inr (p'', out # outs)))"

text \<open>
  The synthesis for the examples, whose phasors all have magnitude zero: the sample of
  such a phasor is zero.
\<close>

definition zero_magnitude :: "u32 \<Rightarrow> SVConfig \<Rightarrow> Phasor \<Rightarrow> 16 word option" where
  "zero_magnitude counter cfg ph = (if magnitude ph = 0 then Some 0 else None)"

text \<open>
  What an observer of a run of ticks sees: the counter at the end, and the \<open>smpCnt\<close> field
  of the frame of tick number \<open>k\<close> (from 0; \<open>None\<close> when that tick sent no frame).  \<open>S1_publisher\<close> is the publisher of the scenario S1 of the
  specification (\<open>appId = 0x4000\<close>, \<open>svId = TestSV01\<close>, \<open>sampleRate = 4800\<close>) as the
  constructor leaves it, with an open socket.
\<close>

definition final_counter :: "error + (SVPublisherInstance \<times> SVFrame option list) \<Rightarrow> error + u32" where
  "final_counter r = (case r of Inl e \<Rightarrow> Inl e | Inr (p, outs) \<Rightarrow> Inr (sampleCounter p))"

definition smpCnt_at ::
  "nat \<Rightarrow> error + (SVPublisherInstance \<times> SVFrame option list) \<Rightarrow> error + u16 option" where
  "smpCnt_at k r =
     (case r of
        Inl e \<Rightarrow> Inl e
      | Inr (p, outs) \<Rightarrow> Inr (if k < length outs then map_option smpCnt (outs ! k) else None))"

definition S1_config :: SVConfig where
  "S1_config = \<lparr> appId = ''0x4000'', macDst = ''01:0C:CD:04:00:00'', macSrc = ''AA:BB:CC:DD:EE:01'',
                 vlanId = 100, vlanPrio = 4, svId = ''TestSV01'', dstAddress = [],
                 nominalFreq = 60, sampleRate = 4800, dataSource = MANUAL, filePath = [] \<rparr>"

definition S1_publisher :: SVPublisherInstance where
  "S1_publisher =
     \<lparr> inst_id = ''s1'', config = S1_config, running = False,
       phasors = replicate 8 \<lparr>magnitude = 0, angle = 0\<rparr>,
       harmonics = JArray [], sampleCounter = 0, rawSocket = 3 \<rparr>"

section \<open>Publisher registry (core/include/sv_publisher_manager.hpp, core/src/sv_publisher_manager.cpp)\<close>

text \<open>
  \<open>json.value(key, default)\<close> of the JSON library, for the three default types the registry
  uses.  It throws \<open>type_error\<close> on a value that is not an object and on a member whose
  type does not convert; an absent member gives the default.  A C++ \<open>int\<close> is a 32-bit
  word here; the conversion of a JSON number to \<open>int\<close> is a \<open>static_cast\<close> (a fractional
  number is truncated towards zero), and a JSON boolean converts to 0 or 1.
\<close>

definition json_member :: "json \<Rightarrow> string \<Rightarrow> error + json option" where
  "json_member j key =
     (case j of
        JObject members \<Rightarrow> Inr (map_of members key)
      | _ \<Rightarrow> Inl (TypeError ''cannot use value() with this type''))"

definition trunc_real :: "real \<Rightarrow> int" where
  "trunc_real r = (if 0 \<le> r then \<lfloor>r\<rfloor> else \<lceil>r\<rceil>)"

definition value_string :: "json \<Rightarrow> string \<Rightarrow> string \<Rightarrow> error + string" where
  "value_string j key dflt =
     (case json_member j key of
        Inl e \<Rightarrow> Inl e
      | Inr None \<Rightarrow> Inr dflt
      | Inr (Some (JString s)) \<Rightarrow> Inr s
      | Inr (Some _) \<Rightarrow> Inl (TypeError ''type must be string''))"

definition value_int :: "json \<Rightarrow> string \<Rightarrow> u32 \<Rightarrow> error + u32" where
  "value_int j key dflt =
     (case json_member j key of
        Inl e \<Rightarrow> Inl e
      | Inr None \<Rightarrow> Inr dflt
      | Inr (Some (JInt n)) \<Rightarrow> Inr (word_of_int n)
      | Inr (Some (JFloat r)) \<Rightarrow> Inr (word_of_int (trunc_real r))
      | Inr (Some (JBool b)) \<Rightarrow> Inr (of_bool b)
      | Inr (Some _) \<Rightarrow> Inl (TypeError ''type must be number''))"

definition value_double :: "json \<Rightarrow> string \<Rightarrow> real \<Rightarrow> error + real" where
  "value_double j key dflt =
     (case json_member j key of
        Inl e \<Rightarrow> Inl e
      | Inr None \<Rightarrow> Inr dflt
      | Inr (Some (JInt n)) \<Rightarrow> Inr (real_of_int n)
      | Inr (Some (JFloat r)) \<Rightarrow> Inr r
      | Inr (Some (JBool b)) \<Rightarrow> Inr (of_bool b)
      | Inr (Some _) \<Rightarrow> Inl (TypeError ''type must be number''))"

definition sum_bind :: "'e + 'a \<Rightarrow> ('a \<Rightarrow> 'e + 'b) \<Rightarrow> 'e + 'b" where
  "sum_bind m f = (case m of Inl e \<Rightarrow> Inl e | Inr x \<Rightarrow> f x)"

text \<open>
  \<open>SVPublisherManager::parseConfig\<close>, statement by statement.  The casts
  \<open>static_cast<uint16_t>\<close>, \<open>static_cast<uint8_t>\<close> and \<open>static_cast<uint32_t>\<close> are \<open>ucast\<close>.
  The only check is the one on the \<open>dataSource\<close> text.
\<close>

definition parseConfig :: "json \<Rightarrow> error + SVConfig" where
  "parseConfig j =
     sum_bind (value_string j ''appId'' ''0x4000'') (\<lambda>c_appId.
     sum_bind (value_string j ''macDst'' ''01:0C:CD:04:00:00'') (\<lambda>c_macDst.
     sum_bind (value_string j ''macSrc'' ''AA:BB:CC:DD:EE:01'') (\<lambda>c_macSrc.
     sum_bind (value_int j ''vlanId'' 100) (\<lambda>c_vlanId.
     sum_bind (value_int j ''vlanPrio'' 4) (\<lambda>c_vlanPrio.
     sum_bind (value_string j ''svId'' ''IED1MU01'') (\<lambda>c_svId.
     sum_bind (value_string j ''dstAddress'' []) (\<lambda>c_dstAddress.
     sum_bind (value_double j ''nominalFreq'' 60) (\<lambda>c_nominalFreq.
     sum_bind (value_int j ''sampleRate'' 4800) (\<lambda>c_sampleRate.
     sum_bind (value_string j ''dataSource'' ''MANUAL'') (\<lambda>dataSourceStr.
       let cfg = \<lparr> appId = c_appId, macDst = c_macDst, macSrc = c_macSrc,
                   vlanId = ucast c_vlanId, vlanPrio = ucast c_vlanPrio, svId = c_svId,
                   dstAddress = c_dstAddress, nominalFreq = c_nominalFreq,
                   sampleRate = ucast c_sampleRate, dataSource = MANUAL, filePath = [] \<rparr>
       in if dataSourceStr = ''MANUAL'' then Inr cfg
          else if dataSourceStr = ''COMTRADE'' then
            sum_bind (value_string j ''filePath'' [])
              (\<lambda>fp. Inr (cfg\<lparr>dataSource := COMTRADE, filePath := fp\<rparr>))
          else if dataSourceStr = ''CSV'' then
            sum_bind (value_string j ''filePath'' [])
              (\<lambda>fp. Inr (cfg\<lparr>dataSource := CSV, filePath := fp\<rparr>))
          else Inl (InvalidArgument (''Invalid dataSource: '' @ dataSourceStr))))))))))))"

text \<open>
  The registry: \<open>streams_\<close> maps a stream id to its publisher.  \<open>createStream\<close> takes the
  identifier \<open>generateId()\<close> draws at random (\<open>newId\<close>), the descriptor \<open>socket()\<close>
  returns in the publisher's constructor (\<open>fd\<close>) and the text of \<open>strerror(errno)\<close> for
  the case that it fails (\<open>errno_text\<close>).  An exception leaves \<open>streams_\<close> as it was: the
  \<open>Inl\<close> result carries no new registry.
\<close>

record SVPublisherManager =
  streams :: "string \<rightharpoonup> SVPublisherInstance"

definition SVPublisherManager_new :: SVPublisherManager where
  "SVPublisherManager_new = \<lparr> streams = Map.empty \<rparr>"

definition createStream ::
  "string \<Rightarrow> int \<Rightarrow> string \<Rightarrow> json \<Rightarrow> SVPublisherManager
   \<Rightarrow> error + (string \<times> SVPublisherManager)" where
  "createStream newId fd errno_text cfgJson mgr =
     sum_bind (parseConfig cfgJson) (\<lambda>svConfig.
     sum_bind (SVPublisherInstance_new newId svConfig fd errno_text) (\<lambda>instance.
       Inr (newId, mgr\<lparr>streams := (streams mgr)(newId \<mapsto> instance)\<rparr>)))"

text \<open>
  A creation request that gives every member with its JSON type, and the JSON object it
  is sent as.
\<close>

record StreamRequest =
  req_appId :: string
  req_macDst :: string
  req_macSrc :: string
  req_vlanId :: int
  req_vlanPrio :: int
  req_svId :: string
  req_dstAddress :: string
  req_nominalFreq :: real
  req_sampleRate :: int
  req_dataSource :: string
  req_filePath :: string

definition request_json :: "StreamRequest \<Rightarrow> json" where
  "request_json r =
     JObject [(''appId'', JString (req_appId r)), (''macDst'', JString (req_macDst r)),
              (''macSrc'', JString (req_macSrc r)), (''vlanId'', JInt (req_vlanId r)),
              (''vlanPrio'', JInt (req_vlanPrio r)), (''svId'', JString (req_svId r)),
              (''dstAddress'', JString (req_dstAddress r)),
              (''nominalFreq'', JFloat (req_nominalFreq r)),
              (''sampleRate'', JInt (req_sampleRate r)),
              (''dataSource'', JString (req_dataSource r)),
              (''filePath'', JString (req_filePath r))]"

text \<open>
  The configuration \<open>parseConfig\<close> builds from such a request whose \<open>dataSource\<close> is one of
  the three tags: every member as given, the three numbers cut to the width of their
  field.
\<close>

definition request_config :: "StreamRequest \<Rightarrow> SVConfig" where
  "request_config r =
     \<lparr> appId = req_appId r, macDst = req_macDst r, macSrc = req_macSrc r,
       vlanId = word_of_int (req_vlanId r), vlanPrio = word_of_int (req_vlanPrio r),
       svId = req_svId r, dstAddress = req_dstAddress r, nominalFreq = req_nominalFreq r,
       sampleRate = word_of_int (req_sampleRate r),
       dataSource = (if req_dataSource r = ''MANUAL'' then MANUAL
                     else if req_dataSource r = ''COMTRADE'' then COMTRADE else CSV),
       filePath = (if req_dataSource r = ''MANUAL'' then [] else req_filePath r) \<rparr>"

text \<open>
  A request with a VLAN id of 5000, a VLAN priority of 9, two strings that are no MAC
  addresses and a sample rate of 0.
\<close>

definition bad_request :: StreamRequest where
  "bad_request =
     \<lparr> req_appId = ''0x4000'', req_macDst = ''not-a-mac'', req_macSrc = ''zz:zz'',
       req_vlanId = 5000, req_vlanPrio = 9, req_svId = ''TestSV01'', req_dstAddress = [],
       req_nominalFreq = 60, req_sampleRate = 0, req_dataSource = ''MANUAL'',
       req_filePath = [] \<rparr>"

section \<open>Differential tester (testers/include/differential_tester.hpp, testers/src/differential_tester.cpp)\<close>

text \<open>
  \<open>double\<close> is \<open>real\<close> here as well.  The fields of \<open>DifferentialPoint\<close> carry the prefix
  \<open>pt_\<close>, those of \<open>DifferentialResult\<close> the prefix \<open>res_\<close>, since the two structs share
  field names.
\<close>

record DifferentialPoint =
  pt_Ir :: real
  pt_Id :: real
  pt_expectedTime :: real
  pt_label :: string

record DifferentialResult =
  res_Ir :: real
  res_Id :: real
  res_Is1 :: real
  res_Is2 :: real
  res_tripped :: bool
  res_tripTime :: real
  res_expectedTime :: real
  res_passed :: bool
  res_error :: string

record DifferentialTestConfig =
  points :: "DifferentialPoint list"
  timeTolerance :: real
  maxTestDuration :: real
  stopOnFirstFailure :: bool
  stream1Id :: string
  stream2Id :: string

text \<open>
  \<open>calculateSideCurrents\<close>: the two output parameters are the result pair (the parameter
  \<open>Id\<close> is \<open>Id'\<close>, \<open>Id\<close> being a constant of HOL).
\<close>

definition calculateSideCurrents :: "real \<Rightarrow> real \<Rightarrow> real \<times> real" where
  "calculateSideCurrents Ir Id' = (Ir + (Id' / 2), - (Ir - (Id' / 2)))"

text \<open>
  What the tester does to its surroundings, in order: the calls of the two side setters
  with their argument, and the reads of the trip flag with their result.  What the
  surroundings give the tester: the successive readings of the steady clock in
  nanoseconds (\<open>clock\<close>), of the trip flag getter (\<open>trip_reads\<close>) and of \<open>stopRequested_\<close>,
  which \<open>stop()\<close> sets from another thread (\<open>stop_reads\<close>).  A run that needs a reading
  beyond the end of its list has not finished within the observed time: its result is
  \<open>None\<close>, and the events up to that point are kept.
\<close>

datatype tester_event = Side1Set real | Side2Set real | TripRead bool

record tester_env =
  clock :: "nat list"
  trip_reads :: "bool list"
  stop_reads :: "bool list"

text \<open>
  The loop of \<open>monitorTrip\<close>, from the loop test on; \<open>t_start\<close> and \<open>t_end\<close> are the
  time points \<open>start\<close> and \<open>end\<close> in nanoseconds.  The result is \<open>(tripped, tripTime)\<close>;
  \<open>tripTime\<close> is only written when the trip is seen.
\<close>

fun monitorTrip_loop ::
  "nat \<Rightarrow> nat \<Rightarrow> bool \<Rightarrow> real \<Rightarrow> nat list \<Rightarrow> bool list \<Rightarrow> bool list
   \<Rightarrow> tester_event list \<times> (bool \<times> real) option" where
  "monitorTrip_loop t_start t_end initialTripState tripTime [] trs sts = ([], None)"
| "monitorTrip_loop t_start t_end initialTripState tripTime (t # ts) trs sts =
     (if \<not> t < t_end then ([], Some (False, tripTime))
      else
        (case sts of
           [] \<Rightarrow> ([], None)
         | s # sts' \<Rightarrow>
             if s then ([], Some (False, tripTime))
             else
               (case trs of
                  [] \<Rightarrow> ([], None)
                | currentTripState # trs' \<Rightarrow>
                    if \<not> initialTripState \<and> currentTripState then
                      (case ts of
                         [] \<Rightarrow> ([TripRead currentTripState], None)
                       | now # _ \<Rightarrow>
                           ([TripRead currentTripState],
                            Some (True, real (now - t_start) / 1000000000)))
                    else
                      (let (evs, r) =
                             monitorTrip_loop t_start t_end initialTripState tripTime ts trs' sts'
                       in (TripRead currentTripState # evs, r)))))"

definition monitorTrip ::
  "tester_env \<Rightarrow> real \<Rightarrow> real \<Rightarrow> tester_event list \<times> (bool \<times> real) option" where
  "monitorTrip env maxDuration tripTime =
     (case clock env of
        [] \<Rightarrow> ([], None)
      | t_start # ts \<Rightarrow>
          (let maxDurationMs = trunc_real (maxDuration * 1000);
               t_end = nat (int t_start + maxDurationMs * 1000000)
           in (case trip_reads env of
                 [] \<Rightarrow> ([], None)
               | initialTripState # trs \<Rightarrow>
                   (let (evs, r) = monitorTrip_loop t_start t_end initialTripState tripTime ts trs
                                     (stop_reads env)
                    in (TripRead initialTripState # evs, r)))))"

text \<open>
  \<open>testPoint\<close>.  A side setter is a callback of the caller; it may throw, which the model
  takes from \<open>setter1\<close> and \<open>setter2\<close> (\<open>Some\<close> text: the setter throws an exception with that
  text when called with the given current).  The \<open>catch\<close> clause turns an exception into
  the \<open>error\<close> text of the result.
\<close>

definition testPoint ::
  "(real \<Rightarrow> string option) \<Rightarrow> (real \<Rightarrow> string option) \<Rightarrow> tester_env
   \<Rightarrow> DifferentialPoint \<Rightarrow> DifferentialTestConfig
   \<Rightarrow> tester_event list \<times> DifferentialResult option" where
  "testPoint setter1 setter2 env point cfg =
     (let (Is1, Is2) = calculateSideCurrents (pt_Ir point) (pt_Id point);
          result = \<lparr> res_Ir = pt_Ir point, res_Id = pt_Id point, res_Is1 = Is1, res_Is2 = Is2,
                     res_tripped = False, res_tripTime = 0,
                     res_expectedTime = pt_expectedTime point, res_passed = False,
                     res_error = [] \<rparr>
      in case setter1 Is1 of
           Some msg \<Rightarrow>
             ([Side1Set Is1], Some (result\<lparr>res_error := ''Exception: '' @ msg, res_passed := False\<rparr>))
         | None \<Rightarrow>
             (case setter2 Is2 of
                Some msg \<Rightarrow>
                  ([Side1Set Is1, Side2Set Is2],
                   Some (result\<lparr>res_error := ''Exception: '' @ msg, res_passed := False\<rparr>))
              | None \<Rightarrow>
                  (case monitorTrip env (maxTestDuration cfg) 0 of
                     (evs, None) \<Rightarrow> (Side1Set Is1 # Side2Set Is2 # evs, None)
                   | (evs, Some (tripped, tripTime)) \<Rightarrow>
                       (Side1Set Is1 # Side2Set Is2 # evs,
                        Some (
                          let result = result\<lparr>res_tripped := tripped, res_tripTime := tripTime\<rparr>
                          in if pt_expectedTime point = 0 then
                               (let passed = (tripped \<and> tripTime < timeTolerance cfg);
                                    result = result\<lparr>res_passed := passed\<rparr>
                                in if \<not> passed \<and> tripped
                                   then result\<lparr>res_error := ''Trip time too slow for instantaneous operation''\<rparr>
                                   else result)
                             else if tripped then
                               (let timeDiff = \<bar>tripTime - pt_expectedTime point\<bar>;
                                    passed = (timeDiff \<le> timeTolerance cfg);
                                    result = result\<lparr>res_passed := passed\<rparr>
                                in if \<not> passed
                                   then result\<lparr>res_error := ''Trip time outside tolerance''\<rparr>
                                   else result)
                             else result\<lparr>res_passed := False,
                                    res_error := ''Relay did not trip within max test duration''\<rparr>)))))"

text \<open>\<open>is_TripRead\<close> tells the reads of the trip flag from the setter calls.\<close>

fun is_TripRead :: "tester_event \<Rightarrow> bool" where
  "is_TripRead (TripRead b) = True"
| "is_TripRead _ = False"

text \<open>
  The point of scenario S5 of the specification, a test configuration, and surroundings
  in which the relay trips at the second poll: clock readings 0, 1, 2 and 3 ms, the trip
  flag read as false, false, true.
\<close>

definition S5_point :: DifferentialPoint where
  "S5_point = \<lparr> pt_Ir = 200, pt_Id = 50, pt_expectedTime = 0, pt_label = ''S5'' \<rparr>"

definition S5_config :: DifferentialTestConfig where
  "S5_config = \<lparr> points = [S5_point], timeTolerance = 1 / 20, maxTestDuration = 1,
                 stopOnFirstFailure = False, stream1Id = ''side1'', stream2Id = ''side2'' \<rparr>"

definition S5_env :: tester_env where
  "S5_env = \<lparr> clock = [0, 1000000, 2000000, 3000000],
              trip_reads = [False, False, True],
              stop_reads = [False, False] \<rparr>"

definition setter_ok :: "real \<Rightarrow> string option" where
  "setter_ok v = None"

section \<open>Sequence engine (sequence/include/sequence_engine.hpp, sequence/src/sequence_engine.cpp)\<close>

text \<open>
  The fields of \<open>SequenceState\<close> carry the prefix \<open>st_\<close> (\<open>name\<close> and \<open>phasors\<close> are fields
  of other records above); \<open>st_transition\<close> is \<open>transition.type\<close>.
\<close>

datatype TransitionType = TIME | GOOSE_TRIP

record ChannelPhasor =
  mag :: real
  angleDeg :: real

record StreamPhasorState =
  freq :: real
  channels :: "string \<rightharpoonup> ChannelPhasor"

record SequenceState =
  st_name :: string
  st_durationSec :: real
  st_transition :: TransitionType
  st_phasors :: "string \<rightharpoonup> StreamPhasorState"

record Sequence =
  activeStreams :: "string list"
  states :: "SequenceState list"

datatype SequenceStatus = IDLE | RUNNING | PAUSED | COMPLETED | STOPPED | ERROR

text \<open>
  The engine's thread runs \<open>sequenceThread\<close> alone; the other threads reach it through
  the atomics it loads and through the clock.  An observation is what the thread can
  find at the moment of one of its loads: whether \<open>stop()\<close> has stored \<open>true\<close> into
  \<open>stopRequested_\<close> since the load before (\<open>stop()\<close> is the only writer while the thread
  runs: \<open>start()\<close>, which stores \<open>false\<close>, returns early while the status is running or
  paused), the value of \<open>pauseRequested_\<close>, the value of the global trip flag, and the
  reading of the steady clock in nanoseconds.  Every load of the thread takes the next
  observation and looks at the one field it loads.
\<close>

record observation =
  ob_stop :: bool
  ob_pause :: bool
  ob_trip :: bool
  ob_now :: nat

text \<open>
  What the thread does that others can see, in order: the stores into
  \<open>currentStateIndex_\<close> and \<open>status_\<close>, the calls of the progress callback (current state,
  number of states, state name, message; the elapsed time is left out), the calls of the
  phasor update callback (stream id and phasors), and the clearing of the trip flag.
\<close>

datatype seq_event =
    SetIndex int
  | StatusStore SequenceStatus
  | Progress nat nat string string
  | PhasorUpdate string StreamPhasorState
  | TripCleared

text \<open>
  The callbacks the owner installs: whether there is a progress callback, which is taken
  to return normally, and the phasor update callback if there is one; it answers \<open>Some\<close>
  text when it throws an exception with that text.
\<close>

record callbacks =
  progress_installed :: bool
  phasor_callback :: "(string \<Rightarrow> StreamPhasorState \<Rightarrow> string option) option"

text \<open>
  The places where the thread loads an atomic or reads the clock; between two of them it
  runs without looking outside.  The first number is the index \<open>i\<close> of the \<open>for\<close> loop,
  the second the \<open>stateStart\<close> of \<open>waitForTransition\<close>.
\<close>

datatype position =
    ThreadStart
  | LoopStopLoad nat
  | LoopPauseLoad nat
  | LoopPauseStopLoad nat
  | StateClockRead nat
  | WaitClockRead nat
  | WaitStopLoad nat nat
  | WaitPauseLoad nat nat
  | WaitPauseStopLoad nat nat
  | WaitTripLoad nat nat
  | WaitNowRead nat nat
  | AfterWaitStopLoad nat
  | ThreadDone

record seq_thread =
  th_pos :: position
  th_stopRequested :: bool
  th_currentStateIndex :: int
  th_status :: SequenceStatus
  th_lastError :: string
  th_sequenceStartTime :: nat
  th_stateStartTime :: nat
  th_trace :: "seq_event list"


definition emit :: "seq_event \<Rightarrow> seq_thread \<Rightarrow> seq_thread" where
  "emit e c = c\<lparr>th_trace := th_trace c @ [e]\<rparr>"

definition load_stop :: "observation \<Rightarrow> seq_thread \<Rightarrow> seq_thread" where
  "load_stop ob c = c\<lparr>th_stopRequested := (th_stopRequested c \<or> ob_stop ob)\<rparr>"

definition store_index :: "int \<Rightarrow> seq_thread \<Rightarrow> seq_thread" where
  "store_index j c = emit (SetIndex j) (c\<lparr>th_currentStateIndex := j\<rparr>)"

definition store_status :: "SequenceStatus \<Rightarrow> seq_thread \<Rightarrow> seq_thread" where
  "store_status s c = emit (StatusStore s) (c\<lparr>th_status := s\<rparr>)"



definition reportProgress :: "Sequence \<Rightarrow> callbacks \<Rightarrow> string \<Rightarrow> seq_thread \<Rightarrow> seq_thread" where
  "reportProgress seq cbs msg c =
     (if progress_installed cbs then
        (let stateIdx = th_currentStateIndex c;
             currentState = (if stateIdx \<ge> 0 then nat stateIdx else 0);
             totalStates = length (states seq);
             stateName = (if stateIdx \<ge> 0 \<and> stateIdx < int totalStates
                          then st_name (states seq ! currentState) else [])
         in emit (Progress currentState totalStates stateName msg) c)
      else c)"







definition stateDuration_ns :: "SequenceState \<Rightarrow> int" where
  "stateDuration_ns st = trunc_real (st_durationSec st * 1000000) * 1000"


text \<open>
  The history of a run of the thread against a finite sequence of observations: for
  every step, the observation the step took, followed by what the thread did in that
  step, which is what the step added to the trace.
\<close>

datatype moment = Observed observation | Effect seq_event


text \<open>
  The transition predicate of the state number \<open>i\<close>, on the observations made since the
  state was entered (\<open>seen\<close>) and the observation made now: the clock now reads at least
  the duration of the state more than it did at one of the earlier observations, or the
  state is a \<open>GOOSE_TRIP\<close> state and the trip flag is set now.
\<close>

definition transition_predicate ::
  "Sequence \<Rightarrow> nat \<Rightarrow> observation list \<Rightarrow> observation \<Rightarrow> bool" where
  "transition_predicate seq i seen ob =
     (list_ex (\<lambda>earlier. int (ob_now ob) - int (ob_now earlier)
                            \<ge> stateDuration_ns (states seq ! i)) seen
      \<or> (st_transition (states seq ! i) = GOOSE_TRIP \<and> ob_trip ob))"

text \<open>
  The order the claim asks of a history, checked by reading it from the start.  The
  reader keeps the last value stored into \<open>currentStateIndex_\<close> (\<open>mon_index\<close>, which is
  \<open>-1\<close> when the thread is launched), the observations made since that store
  (\<open>mon_seen\<close>), and whether the transition predicate of the state with that index has
  held at one of them (\<open>mon_fired\<close>).  Only what the other threads and the clock show
  (the observations) and what the thread does to the outside (the stores and the calls)
  are read.
  \<^item> A call of the phasor update callback is in order when the stored index is the index
    \<open>i\<close> of a state of the sequence, and the call passes an active stream and the phasors
    that state \<open>i\<close> has for it: the call is one for state \<open>i\<close>, made after the index was
    set to \<open>i\<close>.
  \<^item> A store of an index \<open>j \<ge> 0\<close> is in order when \<open>j\<close> is the successor of the stored
    index and either \<open>j = 0\<close> or the transition predicate of state \<open>j - 1\<close> has held at an
    observation made since \<open>j - 1\<close> was stored.  A store of \<open>-1\<close> is in order.
  Hence, in a history that is in order, no call for state \<open>i + 1\<close> comes before the
  transition predicate of state \<open>i\<close> has held.
\<close>

record monitor =
  mon_index :: int
  mon_seen :: "observation list"
  mon_fired :: bool
  mon_ok :: bool

definition monitor_start :: monitor where
  "monitor_start = \<lparr> mon_index = - 1, mon_seen = [], mon_fired = False, mon_ok = True \<rparr>"

fun monitor_step :: "Sequence \<Rightarrow> monitor \<Rightarrow> moment \<Rightarrow> monitor" where
  "monitor_step seq m (Observed ob) =
     m\<lparr>mon_seen := ob # mon_seen m,
       mon_fired := (mon_fired m
          \<or> (0 \<le> mon_index m \<and> nat (mon_index m) < length (states seq)
             \<and> transition_predicate seq (nat (mon_index m)) (mon_seen m) ob))\<rparr>"
| "monitor_step seq m (Effect (SetIndex j)) =
     m\<lparr>mon_index := j, mon_seen := [], mon_fired := False,
       mon_ok := (mon_ok m
          \<and> (j = - 1 \<or> (j = mon_index m + 1 \<and> (j = 0 \<or> mon_fired m))))\<rparr>"
| "monitor_step seq m (Effect (PhasorUpdate streamId ps)) =
     m\<lparr>mon_ok := (mon_ok m
          \<and> 0 \<le> mon_index m \<and> nat (mon_index m) < length (states seq)
          \<and> streamId \<in> set (activeStreams seq)
          \<and> st_phasors (states seq ! nat (mon_index m)) streamId = Some ps)\<rparr>"
| "monitor_step seq m (Effect (StatusStore s)) = m"
| "monitor_step seq m (Effect (Progress a b c d)) = m"
| "monitor_step seq m (Effect TripCleared) = m"

definition in_order :: "Sequence \<Rightarrow> moment list \<Rightarrow> bool" where
  "in_order seq h = mon_ok (foldl (monitor_step seq) monitor_start h)"






text \<open>
  An example run: two states on the stream \<open>SV1\<close>, the first left after 0.1 s, the second
  a \<open>GOOSE_TRIP\<close> state of 1 s; both callbacks installed, the phasor update callback never
  throwing; and fifteen observations, in which nobody stops or pauses, the clock reads 0
  until the first wait and 200 ms afterwards, and the trip flag is found set.
\<close>

definition example_phasors :: "real \<Rightarrow> StreamPhasorState" where
  "example_phasors f = \<lparr> freq = f, channels = [''V-A'' \<mapsto> \<lparr> mag = 69000, angleDeg = 0 \<rparr>] \<rparr>"

definition example_sequence :: Sequence where
  "example_sequence =
     \<lparr> activeStreams = [''SV1''],
       states =
         [\<lparr> st_name = ''prefault'', st_durationSec = 1 / 10, st_transition = TIME,
            st_phasors = [''SV1'' \<mapsto> example_phasors 60] \<rparr>,
          \<lparr> st_name = ''fault'', st_durationSec = 1, st_transition = GOOSE_TRIP,
            st_phasors = [''SV1'' \<mapsto> example_phasors 61] \<rparr>] \<rparr>"



definition quiet_at :: "nat \<Rightarrow> observation" where
  "quiet_at t = \<lparr> ob_stop = False, ob_pause = False, ob_trip = False, ob_now = t \<rparr>"

definition tripped_at :: "nat \<Rightarrow> observation" where
  "tripped_at t = \<lparr> ob_stop = False, ob_pause = False, ob_trip = True, ob_now = t \<rparr>"


section \<open>Properties of the BER length\<close>

lemma u8_of_nat_eq_iff:
  "a < 256 \<Longrightarrow> b < 256 \<Longrightarrow> ((of_nat a :: u8) = of_nat b) = (a = b)"
  by (simp add: word_of_nat_eq_iff take_bit_nat_eq_self)

lemma unat_u8_of_nat: "a < 256 \<Longrightarrow> unat (of_nat a :: u8) = a"
  by (simp add: unat_of_nat)

lemma nat_and_255: "n AND 255 = n mod 256" for n :: nat
proof -
  have "n AND mask 8 = take_bit 8 n" by (simp only: take_bit_eq_mask)
  then show ?thesis by (simp add: take_bit_eq_mod mask_eq_exp_minus_1)
qed

lemma push_drop_take_8: "push_bit 8 (drop_bit 8 l) OR take_bit 8 l = l" for l :: nat
  by (rule bit_eqI) (auto simp add: bit_simps)

lemma ber_hi_lo: "push_bit 8 (l div 256 mod 256) OR (l mod 256) = l" if "l < 65536" for l :: nat
proof -
  have "l div 256 < 256" using that by simp
  then show ?thesis
    using push_drop_take_8 [of l] by (simp add: drop_bit_eq_div take_bit_eq_mod)
qed

lemma encodeBERLength_short: "len \<le> 127 \<Longrightarrow> encodeBERLength len = Inr [of_nat len]"
  by (simp add: encodeBERLength_def)

lemma encodeBERLength_81:
  "128 \<le> len \<Longrightarrow> len \<le> 255 \<Longrightarrow> encodeBERLength len = Inr [0x81, of_nat len]"
  by (simp add: encodeBERLength_def)

lemma encodeBERLength_82:
  "256 \<le> len \<Longrightarrow> len \<le> 65535 \<Longrightarrow>
   encodeBERLength len = Inr [0x82, of_nat (len div 256), of_nat (len mod 256)]"
  by (simp add: encodeBERLength_def nat_and_255 drop_bit_eq_div)

lemma encodeBERLength_refused:
  "65536 \<le> len \<Longrightarrow> encodeBERLength len = Inl (RuntimeError ''BER length > 65535 not supported'')"
  by (simp add: encodeBERLength_def)

lemma u8_of_nat_neq: "l < k \<Longrightarrow> k < 256 \<Longrightarrow> (of_nat l :: u8) \<noteq> of_nat k"
  by (simp add: u8_of_nat_eq_iff)

lemma parse_short: "l \<le> 127 \<Longrightarrow> parseBERLength [of_nat l] 0 = Some (l, 1)"
proof -
  assume l: "l \<le> 127"
  have "(of_nat l :: u8) \<noteq> 0x82" "(of_nat l :: u8) \<noteq> 0x81"
    using l u8_of_nat_neq [of l 130] u8_of_nat_neq [of l 129] by simp_all
  then show ?thesis using l by (simp add: parseBERLength_def unat_u8_of_nat)
qed

lemma parse_81: "l \<le> 255 \<Longrightarrow> parseBERLength [0x81, of_nat l] 0 = Some (l, 2)"
  by (simp add: parseBERLength_def unat_u8_of_nat)

lemma parse_82:
  "l \<le> 65535 \<Longrightarrow> parseBERLength [0x82, of_nat (l div 256), of_nat (l mod 256)] 0 = Some (l, 3)"
proof -
  assume l: "l \<le> 65535"
  then have "l div 256 < 256" by simp
  then show ?thesis
    using l ber_hi_lo [of l] by (simp add: parseBERLength_def unat_u8_of_nat)
qed

text \<open>
  Claim C1.  For every length \<open>L\<close> in \<open>[0, 65535]\<close> the encoding succeeds; it has one byte
  iff \<open>L \<le> 127\<close>, two bytes (\<open>0x81\<close>, then \<open>L\<close>) iff \<open>128 \<le> L \<le> 255\<close>, three bytes (\<open>0x82\<close>,
  then the big-endian 16-bit value) iff \<open>256 \<le> L \<le> 65535\<close>; the sniffer's length reader
  applied to the produced bytes gives \<open>L\<close> back and consumes all of them; and every
  \<open>L \<ge> 65536\<close> is refused with an exception.
\<close>

theorem encodeBERLength_roundtrip:
  "(L \<le> 65535 \<longrightarrow>
      (\<exists>bs. encodeBERLength L = Inr bs
         \<and> (length bs = 1 \<longleftrightarrow> L \<le> 127)
         \<and> (length bs = 2 \<longleftrightarrow> 128 \<le> L \<and> L \<le> 255)
         \<and> (length bs = 3 \<longleftrightarrow> 256 \<le> L \<and> L \<le> 65535)
         \<and> (L \<le> 127 \<longrightarrow> bs = [of_nat L])
         \<and> (128 \<le> L \<and> L \<le> 255 \<longrightarrow> bs = [0x81, of_nat L])
         \<and> (256 \<le> L \<and> L \<le> 65535 \<longrightarrow> bs = [0x82, of_nat (L div 256), of_nat (L mod 256)])
         \<and> parseBERLength bs 0 = Some (L, length bs)))
   \<and> (65536 \<le> L \<longrightarrow> (\<exists>e. encodeBERLength L = Inl e))"
proof -
  consider "L \<le> 127" | "128 \<le> L" "L \<le> 255" | "256 \<le> L" "L \<le> 65535" | "65536 \<le> L"
    by linarith
  then show ?thesis
  proof cases
    case 1
    then show ?thesis by (simp add: encodeBERLength_short parse_short)
  next
    case 2
    then show ?thesis by (simp add: encodeBERLength_81 parse_81)
  next
    case 3
    then show ?thesis by (simp add: encodeBERLength_82 parse_82)
  next
    case 4
    then show ?thesis by (simp add: encodeBERLength_refused)
  qed
qed

theorem encodeBERLength_roundtrip_witness:
  "encodeBERLength 300 = Inr [0x82, 0x01, 0x2C]
   \<and> parseBERLength [0x82, 0x01, 0x2C] 0 = Some (300, 3)
   \<and> encodeBERLength 200 = Inr [0x81, 0xC8]
   \<and> encodeBERLength 5 = Inr [0x05]
   \<and> (\<exists>e. encodeBERLength 65536 = Inl e)"
  using encodeBERLength_roundtrip [of 300] encodeBERLength_roundtrip [of 200]
    encodeBERLength_roundtrip [of 5] encodeBERLength_roundtrip [of 65536]
  by auto

section \<open>Properties of the MAC parser\<close>

declare macStrToBytes_loop.simps [simp del]

lemma hex_digit_plain:
  assumes "is_digit_in 16 c"
  shows "c \<noteq> CHR 0x00" "\<not> isspace c" "c \<noteq> CHR ''-''" "c \<noteq> CHR ''+''"
  using assms
  by (auto simp add: is_digit_in_def digit_value_def isspace_def Let_def
      split: option.splits if_splits)

lemma stoi_hex_pair:
  assumes "is_digit_in 16 hi" "is_digit_in 16 lo"
  shows "\<exists>v. stoi [hi, lo] 16 = Inr v \<and> word_of_int v = hex_pair hi lo"
proof -
  obtain a where a: "digit_value hi = Some a" "a < 16"
    using assms(1) by (auto simp add: is_digit_in_def split: option.splits)
  obtain b where b: "digit_value lo = Some b" "b < 16"
    using assms(2) by (auto simp add: is_digit_in_def split: option.splits)
  have "strtol [hi, lo] 16 = Some (int (a * 16 + b))"
    using a b assms hex_digit_plain [OF assms(1)] hex_digit_plain [OF assms(2)]
    by (simp add: strtol_def)
  moreover have "int (a * 16 + b) \<le> 2147483647" using a b by simp
  ultimately have "stoi [hi, lo] 16 = Inr (int (a * 16 + b))"
    by (simp add: stoi_def)
  moreover have "(word_of_int (int (a * 16 + b)) :: u8) = hex_pair hi lo"
    using a b by (simp add: hex_pair_def mult.commute)
  ultimately show ?thesis by blast
qed

lemma macStrToBytes_loop_step:
  assumes "i + 1 < length mac" "byteIdx < 6"
    and "byteIdx > 0 \<Longrightarrow> mac ! (i - 1) = CHR '':''"
    and "is_digit_in 16 (mac ! i)" "is_digit_in 16 (mac ! (i + 1))"
  shows "macStrToBytes_loop mac i byteIdx bytes =
         macStrToBytes_loop mac (i + 3) (byteIdx + 1) (bytes @ [hex_pair (mac ! i) (mac ! (i + 1))])"
proof -
  have sub: "substr mac i 2 = [mac ! i, mac ! (i + 1)]"
    using assms(1)
    by (simp add: substr_def take_Suc_conv_app_nth numeral_2_eq_2 Cons_nth_drop_Suc [symmetric]
        take_Suc)
  obtain v where v: "stoi [mac ! i, mac ! (i + 1)] 16 = Inr v"
      "word_of_int v = hex_pair (mac ! i) (mac ! (i + 1))"
    using stoi_hex_pair [OF assms(4) assms(5)] by blast
  show ?thesis
    using assms(1,2,3) v
    by (subst macStrToBytes_loop.simps) (auto simp add: sub)
qed

lemma macStrToBytes_loop_end: "macStrToBytes_loop mac i 6 bytes = Inr bytes"
  by (subst macStrToBytes_loop.simps) simp

lemma mac_shape_from_nth:
  "mac_shape_from k s \<Longrightarrow> i < length s \<Longrightarrow>
   (if (k + i) mod 3 = 2 then s ! i = CHR '':'' else is_digit_in 16 (s ! i))"
proof (induction s arbitrary: k i)
  case Nil
  then show ?case by simp
next
  case (Cons c cs)
  show ?case
  proof (cases i)
    case 0
    with Cons.prems show ?thesis by (simp split: if_splits)
  next
    case (Suc j)
    with Cons.prems Cons.IH [of "Suc k" j] show ?thesis by simp
  qed
qed

lemma three_k_minus_1_mod: "k > 0 \<Longrightarrow> (3 * k - 1) mod 3 = (2::nat)"
proof -
  assume "k > 0"
  then obtain m where "k = Suc m" by (cases k) auto
  then have "3 * k - 1 = 2 + m * 3" by simp
  moreover have "(2 + m * 3) mod 3 = 2 mod (3::nat)" by (rule mod_mult_self1)
  ultimately show ?thesis by simp
qed

lemma macStrToBytes_loop_all:
  assumes len: "length mac = 17" and sh: "mac_shape_from 0 mac"
  shows "k \<le> 6 \<Longrightarrow>
         macStrToBytes_loop mac (3 * k) k bytes =
         Inr (bytes @ map (\<lambda>j. hex_pair (mac ! (3 * j)) (mac ! (3 * j + 1))) [k..<6])"
proof (induction "6 - k" arbitrary: k bytes)
  case 0
  then have "k = 6" by simp
  then show ?case by (simp add: macStrToBytes_loop_end)
next
  case (Suc n)
  then have k: "k < 6" by simp
  have d1: "is_digit_in 16 (mac ! (3 * k))"
    using mac_shape_from_nth [OF sh, of "3 * k"] k len by simp
  have d2: "is_digit_in 16 (mac ! (3 * k + 1))"
    using mac_shape_from_nth [OF sh, of "3 * k + 1"] k len by simp
  have colon: "k > 0 \<Longrightarrow> mac ! (3 * k - 1) = CHR '':''"
  proof -
    assume "k > 0"
    then have "(3 * k - 1) mod 3 = 2" by (rule three_k_minus_1_mod)
    then show ?thesis
      using mac_shape_from_nth [OF sh, of "3 * k - 1"] k len by simp
  qed
  have "macStrToBytes_loop mac (3 * k) k bytes =
        macStrToBytes_loop mac (3 * k + 3) (k + 1)
          (bytes @ [hex_pair (mac ! (3 * k)) (mac ! (3 * k + 1))])"
    using k len by (intro macStrToBytes_loop_step d1 d2 colon) simp_all
  also have "\<dots> = macStrToBytes_loop mac (3 * (k + 1)) (k + 1)
          (bytes @ [hex_pair (mac ! (3 * k)) (mac ! (3 * k + 1))])"
    by (simp add: algebra_simps)
  also have "\<dots> = Inr ((bytes @ [hex_pair (mac ! (3 * k)) (mac ! (3 * k + 1))])
          @ map (\<lambda>j. hex_pair (mac ! (3 * j)) (mac ! (3 * j + 1))) [k + 1..<6])"
    using Suc.hyps(2) k by (intro Suc.hyps(1)) simp_all
  also have "\<dots> = Inr (bytes @ map (\<lambda>j. hex_pair (mac ! (3 * j)) (mac ! (3 * j + 1))) [k..<6])"
    using k by (simp add: upt_conv_Cons)
  finally show ?case .
qed

text \<open>
  The accepting half of claim C7 holds: a string of the shape \<open>XX:XX:XX:XX:XX:XX\<close> is
  parsed into the six bytes its digit pairs denote.
\<close>

lemma macStrToBytes_well_formed:
  assumes "mac_shape mac"
  shows "macStrToBytes mac =
         Inr (map (\<lambda>j. hex_pair (mac ! (3 * j)) (mac ! (3 * j + 1))) [0..<6])"
  using assms macStrToBytes_loop_all [of mac 0 "[]"]
  by (simp add: mac_shape_def macStrToBytes_def)

text \<open>
  Claim C7, the rejecting half, fails on the code.  The string \<open>01: C:CD:04:00:01\<close> has a
  space where a hexadecimal digit is required, so it is not of the shape; the repository's
  test \<open>InvalidMAC_NonHexCharacter_Space\<close> expects \<open>std::invalid_argument\<close> for it.
  \<open>macStrToBytes\<close> accepts it, because \<open>std::stoi\<close> skips the space and reads the single
  digit \<open>C\<close>.
\<close>

theorem macStrToBytes_accepts_space:
  "macStrToBytes ''01: C:CD:04:00:01'' = Inr [0x01, 0x0C, 0xCD, 0x04, 0x00, 0x01]
   \<and> \<not> mac_shape ''01: C:CD:04:00:01''"
  by (simp add: macStrToBytes_def macStrToBytes_loop.simps stoi_def strtol_def substr_def
      isspace_def digit_value_def is_digit_in_def mac_shape_def)


section \<open>Properties of the trip rule engine\<close>

text \<open>
  Claim C5.  A comparison whose data point path is not in the data point map evaluates to
  false, whatever the operator and the literal.
\<close>

theorem comparison_missing_point:
  "dps dataPath = None \<Longrightarrow>
   evaluate stod dps (ComparisonNode dataPath operation compareValue) = Inr False"
  by simp

theorem comparison_missing_point_witness:
  "dataPoints (updateDataPoint_int ''B'' 5 TripRuleEvaluator_new) ''A'' = None
   \<and> evaluate stod_refuse (dataPoints (updateDataPoint_int ''B'' 5 TripRuleEvaluator_new))
        (ComparisonNode ''A'' GREATER_THAN ''abc'') = Inr False"
proof -
  have h: "dataPoints (updateDataPoint_int ''B'' 5 TripRuleEvaluator_new) ''A'' = None"
    by (simp add: updateDataPoint_int_def TripRuleEvaluator_new_def)
  show ?thesis
    using h comparison_missing_point
      [of "dataPoints (updateDataPoint_int ''B'' 5 TripRuleEvaluator_new)" "''A''"
         stod_refuse GREATER_THAN "''abc''"]
    by blast
qed

text \<open>
  Claim C4, as stated, fails: \<open>BinaryOpNode::evaluate\<close> evaluates both operands before it
  looks at the operation.  With the bool point \<open>A = false\<close> and the int point \<open>B = 5\<close>, the
  rule \<open>A == true && B == abc\<close> has a left operand that evaluates to false, and its
  evaluation throws the \<open>std::invalid_argument\<close> of \<open>std::stoi\<close> raised by the right
  operand; with \<open>A == false || B == abc\<close> the left operand is true and the same exception
  is thrown.
\<close>

theorem binary_op_not_short_circuit:
  "evaluate stod_refuse
     (dataPoints (updateDataPoint_int ''B'' 5 (updateDataPoint_bool ''A'' False TripRuleEvaluator_new)))
     (ComparisonNode ''A'' EQUALS ''true'') = Inr False
   \<and> evaluate stod_refuse
     (dataPoints (updateDataPoint_int ''B'' 5 (updateDataPoint_bool ''A'' False TripRuleEvaluator_new)))
     (BinaryOpNode (ComparisonNode ''A'' EQUALS ''true'') (ComparisonNode ''B'' EQUALS ''abc'')
        RuleOp_AND) = Inl (InvalidArgument ''stoi'')
   \<and> evaluate stod_refuse
     (dataPoints (updateDataPoint_int ''B'' 5 (updateDataPoint_bool ''A'' False TripRuleEvaluator_new)))
     (ComparisonNode ''A'' EQUALS ''false'') = Inr True
   \<and> evaluate stod_refuse
     (dataPoints (updateDataPoint_int ''B'' 5 (updateDataPoint_bool ''A'' False TripRuleEvaluator_new)))
     (BinaryOpNode (ComparisonNode ''A'' EQUALS ''false'') (ComparisonNode ''B'' EQUALS ''abc'')
        RuleOp_OR) = Inl (InvalidArgument ''stoi'')"
  by (simp add: updateDataPoint_int_def updateDataPoint_bool_def TripRuleEvaluator_new_def
      stoi_def strtol_def isspace_def is_digit_in_def digit_value_def)

text \<open>
  Claim C4, amended.  Both operands of a binary node are always evaluated, the left one
  first: when the left operand throws, the node throws that exception, whatever the
  right operand would do (it is not evaluated then); when the left operand gives a value
  and the right operand throws, the node throws the exception of the right operand,
  whatever the value of the left one and whatever the operation.  When both operands
  give a value, an AND node whose left operand is false is false and an OR node whose
  left operand is true is true.
\<close>

theorem binary_op_strict:
  "(evaluate stod dps left = Inr False \<and> evaluate stod dps right = Inr r
      \<longrightarrow> evaluate stod dps (BinaryOpNode left right RuleOp_AND) = Inr False)
   \<and> (evaluate stod dps left = Inr True \<and> evaluate stod dps right = Inr r
      \<longrightarrow> evaluate stod dps (BinaryOpNode left right RuleOp_OR) = Inr True)
   \<and> (evaluate stod dps left = Inr l \<and> evaluate stod dps right = Inl e
      \<longrightarrow> evaluate stod dps (BinaryOpNode left right operation) = Inl e)
   \<and> (evaluate stod dps left = Inl e
      \<longrightarrow> evaluate stod dps (BinaryOpNode left right operation) = Inl e)"
  by simp

theorem binary_op_strict_witness:
  "evaluate stod_refuse (dataPoints (updateDataPoint_bool ''A'' False TripRuleEvaluator_new))
     (BinaryOpNode (ComparisonNode ''A'' EQUALS ''true'') (ComparisonNode ''A'' EQUALS ''0'')
        RuleOp_AND) = Inr False
   \<and> evaluate stod_refuse (dataPoints (updateDataPoint_bool ''A'' False TripRuleEvaluator_new))
     (BinaryOpNode (ComparisonNode ''A'' EQUALS ''0'') (ComparisonNode ''A'' EQUALS ''true'')
        RuleOp_OR) = Inr True
   \<and> evaluate stod_refuse
     (dataPoints (updateDataPoint_int ''B'' 5 (updateDataPoint_bool ''A'' False TripRuleEvaluator_new)))
     (BinaryOpNode (ComparisonNode ''A'' EQUALS ''true'') (ComparisonNode ''B'' EQUALS ''abc'')
        RuleOp_AND) = Inl (InvalidArgument ''stoi'')
   \<and> evaluate stod_refuse
     (dataPoints (updateDataPoint_int ''B'' 5 (updateDataPoint_bool ''A'' False TripRuleEvaluator_new)))
     (ComparisonNode ''B'' EQUALS ''99999999999'') = Inl (OutOfRange ''stoi'')
   \<and> evaluate stod_refuse
     (dataPoints (updateDataPoint_int ''B'' 5 (updateDataPoint_bool ''A'' False TripRuleEvaluator_new)))
     (BinaryOpNode (ComparisonNode ''B'' EQUALS ''abc'') (ComparisonNode ''B'' EQUALS ''99999999999'')
        RuleOp_OR) = Inl (InvalidArgument ''stoi'')
   \<and> evaluate stod_refuse
     (dataPoints (updateDataPoint_int ''B'' 5 (updateDataPoint_bool ''A'' False TripRuleEvaluator_new)))
     (BinaryOpNode (ComparisonNode ''B'' EQUALS ''99999999999'') (ComparisonNode ''B'' EQUALS ''abc'')
        RuleOp_OR) = Inl (OutOfRange ''stoi'')"
proof -
  let ?d1 = "dataPoints (updateDataPoint_bool ''A'' False TripRuleEvaluator_new)"
  let ?d2 = "dataPoints (updateDataPoint_int ''B'' 5 (updateDataPoint_bool ''A'' False TripRuleEvaluator_new))"
  have a: "evaluate stod_refuse ?d1 (ComparisonNode ''A'' EQUALS ''true'') = Inr False"
    by (simp add: updateDataPoint_bool_def TripRuleEvaluator_new_def)
  have b: "evaluate stod_refuse ?d1 (ComparisonNode ''A'' EQUALS ''0'') = Inr True"
    by (simp add: updateDataPoint_bool_def TripRuleEvaluator_new_def)
  have c: "evaluate stod_refuse ?d2 (ComparisonNode ''A'' EQUALS ''true'') = Inr False"
    by (simp add: updateDataPoint_bool_def updateDataPoint_int_def TripRuleEvaluator_new_def)
  have d: "evaluate stod_refuse ?d2 (ComparisonNode ''B'' EQUALS ''abc'') = Inl (InvalidArgument ''stoi'')"
    by (simp add: updateDataPoint_int_def updateDataPoint_bool_def TripRuleEvaluator_new_def
        stoi_def strtol_def isspace_def is_digit_in_def digit_value_def)
  have f: "evaluate stod_refuse ?d2 (ComparisonNode ''B'' EQUALS ''99999999999'')
      = Inl (OutOfRange ''stoi'')"
    by (simp add: updateDataPoint_int_def updateDataPoint_bool_def TripRuleEvaluator_new_def
        stoi_def strtol_def isspace_def is_digit_in_def digit_value_def)
  have w1: "evaluate stod_refuse ?d1
      (BinaryOpNode (ComparisonNode ''A'' EQUALS ''true'') (ComparisonNode ''A'' EQUALS ''0'')
         RuleOp_AND) = Inr False"
    using a b
      binary_op_strict [of stod_refuse ?d1 "ComparisonNode ''A'' EQUALS ''true''"
        "ComparisonNode ''A'' EQUALS ''0''" True]
    by blast
  have w2: "evaluate stod_refuse ?d1
      (BinaryOpNode (ComparisonNode ''A'' EQUALS ''0'') (ComparisonNode ''A'' EQUALS ''true'')
         RuleOp_OR) = Inr True"
    using a b
      binary_op_strict [of stod_refuse ?d1 "ComparisonNode ''A'' EQUALS ''0''"
        "ComparisonNode ''A'' EQUALS ''true''" False]
    by blast
  have w3: "evaluate stod_refuse ?d2
      (BinaryOpNode (ComparisonNode ''A'' EQUALS ''true'') (ComparisonNode ''B'' EQUALS ''abc'')
         RuleOp_AND) = Inl (InvalidArgument ''stoi'')"
    using c d
      binary_op_strict [of stod_refuse ?d2 "ComparisonNode ''A'' EQUALS ''true''"
        "ComparisonNode ''B'' EQUALS ''abc''" _ False "InvalidArgument ''stoi''" RuleOp_AND]
    by blast
  have w4: "evaluate stod_refuse ?d2
      (BinaryOpNode (ComparisonNode ''B'' EQUALS ''abc'')
         (ComparisonNode ''B'' EQUALS ''99999999999'') RuleOp_OR)
      = Inl (InvalidArgument ''stoi'')"
    using d
      binary_op_strict [of stod_refuse ?d2 "ComparisonNode ''B'' EQUALS ''abc''"
        "ComparisonNode ''B'' EQUALS ''99999999999''" _ _ "InvalidArgument ''stoi''" RuleOp_OR]
    by blast
  have w5: "evaluate stod_refuse ?d2
      (BinaryOpNode (ComparisonNode ''B'' EQUALS ''99999999999'')
         (ComparisonNode ''B'' EQUALS ''abc'') RuleOp_OR)
      = Inl (OutOfRange ''stoi'')"
    using f
      binary_op_strict [of stod_refuse ?d2 "ComparisonNode ''B'' EQUALS ''99999999999''"
        "ComparisonNode ''B'' EQUALS ''abc''" _ _ "OutOfRange ''stoi''" RuleOp_OR]
    by blast
  from w1 w2 w3 f w4 w5 show ?thesis by (intro conjI)
qed

subsection \<open>The ordered rule container\<close>

lemma map_assign_keys: "fst ` set (map_assign key v rs) = insert key (fst ` set rs)"
  by (induction rs) (force split: if_splits)+

lemma map_erase_keys: "fst ` set (map_erase key rs) \<subseteq> fst ` set rs"
  by (induction rs) (force split: if_splits)+

lemma map_assign_sorted:
  "sorted_wrt (<) (map fst rs) \<Longrightarrow> sorted_wrt (<) (map fst (map_assign key v rs))"
proof (induction rs)
  case Nil
  then show ?case by simp
next
  case (Cons a rs)
  obtain k w where a: "a = (k, w)" by (cases a)
  have keys: "fst ` set (map_assign key v rs) = insert key (fst ` set rs)"
    by (rule map_assign_keys)
  show ?case
    using Cons keys unfolding a by (auto simp add: not_less)
qed

lemma map_erase_sorted:
  "sorted_wrt (<) (map fst rs) \<Longrightarrow> sorted_wrt (<) (map fst (map_erase key rs))"
proof (induction rs)
  case Nil
  then show ?case by simp
next
  case (Cons a rs)
  obtain k w where a: "a = (k, w)" by (cases a)
  show ?case
    using Cons map_erase_keys [of key rs] unfolding a by force
qed
lemma map_assign_names:
  "list_all (\<lambda>(k, rule). name rule = k) rs \<Longrightarrow> name v = key \<Longrightarrow>
   list_all (\<lambda>(k, rule). name rule = k) (map_assign key v rs)"
  by (induction rs) (auto split: if_splits)

lemma map_erase_names:
  "list_all (\<lambda>(k, rule). name rule = k) rs \<Longrightarrow>
   list_all (\<lambda>(k, rule). name rule = k) (map_erase key rs)"
  by (induction rs) (auto split: if_splits)

lemma map_modify_keys: "map fst (map_modify key f rs) = map fst rs"
  by (induction rs) (auto split: if_splits)

lemma map_modify_names:
  "list_all (\<lambda>(k, rule). name rule = k) rs \<Longrightarrow> (\<And>r. name (f r) = name r) \<Longrightarrow>
   list_all (\<lambda>(k, rule). name rule = k) (map_modify key f rs)"
  by (induction rs) (auto split: if_splits)

lemma map_assign_commute:
  "k1 \<noteq> k2 \<Longrightarrow>
   map_assign k1 v1 (map_assign k2 v2 rs) = map_assign k2 v2 (map_assign k1 v1 rs)"
proof (induction rs)
  case Nil
  then show ?case using less_linear [of k1 k2] by (auto dest: less_asym)
next
  case (Cons a rs)
  obtain k w where a: "a = (k, w)" by (cases a)
  show ?case
    using Cons less_linear [of k1 k2] unfolding a
    by (auto dest: less_asym less_trans)
qed

lemma rules_inv_map_assign:
  "rules_inv rs \<Longrightarrow> name v = key \<Longrightarrow> rules_inv (map_assign key v rs)"
  by (simp add: rules_inv_def map_assign_sorted map_assign_names)

lemma rules_inv_map_erase: "rules_inv rs \<Longrightarrow> rules_inv (map_erase key rs)"
  by (simp add: rules_inv_def map_erase_sorted map_erase_names)

lemma rules_inv_new: "rules_inv (rules TripRuleEvaluator_new)"
  by (simp add: rules_inv_def TripRuleEvaluator_new_def)

lemma rules_inv_addRule:
  assumes "rules_inv (rules ev)"
  shows "rules_inv (rules (snd (addRule parseExpression nm expr ev)))"
proof -
  obtain err a where pe: "parseExpression expr = (err, a)" by (cases "parseExpression expr")
  show ?thesis
  proof (cases a)
    case None
    then show ?thesis using assms pe by (simp add: addRule_def)
  next
    case (Some node)
    then have "rules (snd (addRule parseExpression nm expr ev)) =
        map_assign nm \<lparr>name = nm, expression = expr, ast = Some node, enabled = True\<rparr> (rules ev)"
      using pe by (simp add: addRule_def)
    moreover have "rules_inv (map_assign nm
        \<lparr>name = nm, expression = expr, ast = Some node, enabled = True\<rparr> (rules ev))"
      by (rule rules_inv_map_assign [OF assms]) simp
    ultimately show ?thesis by simp
  qed
qed

lemma rules_inv_removeRule: "rules_inv (rules ev) \<Longrightarrow> rules_inv (rules (removeRule nm ev))"
  by (simp add: removeRule_def rules_inv_map_erase)

lemma rules_inv_setRuleEnabled:
  assumes "rules_inv (rules ev)"
  shows "rules_inv (rules (setRuleEnabled nm en ev))"
  using assms map_modify_names [of "rules ev" "\<lambda>rule. rule\<lparr>enabled := en\<rparr>" nm]
  by (simp add: rules_inv_def setRuleEnabled_def map_modify_keys)

lemma rules_inv_clearRules: "rules_inv (rules (clearRules ev))"
  by (simp add: rules_inv_def clearRules_def)

lemma addRule_commute:
  assumes "n1 \<noteq> n2"
  shows "rules (snd (addRule parseExpression n1 e1 (snd (addRule parseExpression n2 e2 ev)))) =
   rules (snd (addRule parseExpression n2 e2 (snd (addRule parseExpression n1 e1 ev))))"
proof -
  obtain err1 a1 where p1: "parseExpression e1 = (err1, a1)" by (cases "parseExpression e1")
  obtain err2 a2 where p2: "parseExpression e2 = (err2, a2)" by (cases "parseExpression e2")
  show ?thesis
  proof (cases a1)
    case None
    then show ?thesis using p1 p2 by (cases a2) (simp_all add: addRule_def)
  next
    case s1: (Some node1)
    show ?thesis
    proof (cases a2)
      case None
      then show ?thesis using p1 p2 s1 by (simp add: addRule_def)
    next
      case (Some node2)
      have "map_assign n1 \<lparr>name = n1, expression = e1, ast = Some node1, enabled = True\<rparr>
              (map_assign n2 \<lparr>name = n2, expression = e2, ast = Some node2, enabled = True\<rparr>
                 (rules ev))
          = map_assign n2 \<lparr>name = n2, expression = e2, ast = Some node2, enabled = True\<rparr>
              (map_assign n1 \<lparr>name = n1, expression = e1, ast = Some node1, enabled = True\<rparr>
                 (rules ev))"
        by (rule map_assign_commute [OF assms])
      then show ?thesis using p1 p2 s1 Some by (simp add: addRule_def)
    qed
  qed
qed

subsection \<open>The evaluation loop\<close>

lemma evaluate_loop_skip:
  "\<not> rule_holds stod dps rule \<Longrightarrow> \<not> rule_fails stod dps rule \<Longrightarrow>
   evaluate_loop stod dps ((key, rule) # rest) result = evaluate_loop stod dps rest result"
  by (auto simp add: rule_holds_def rule_fails_def split: option.splits sum.splits bool.splits)

lemma evaluate_loop_hit:
  "rule_holds stod dps rule \<Longrightarrow>
   evaluate_loop stod dps ((key, rule) # rest) result =
   result\<lparr>triggered := True, ruleName := name rule,
          message := ''Trip rule triggered: '' @ expression rule\<rparr>"
  by (auto simp add: rule_holds_def split: option.splits)

lemma evaluate_loop_fail:
  "rule_fails stod dps rule \<Longrightarrow>
   \<not> triggered (evaluate_loop stod dps ((key, rule) # rest) result)"
  by (auto simp add: rule_fails_def split: option.splits sum.splits)

declare evaluate_loop.simps(2) [simp del]

lemma holds_not_fails: "rule_holds stod dps rule \<Longrightarrow> \<not> rule_fails stod dps rule"
  by (auto simp add: rule_holds_def rule_fails_def split: option.splits)

lemma evaluate_loop_triggered_split:
  "triggered (evaluate_loop stod dps rs result) \<Longrightarrow>
   \<exists>pre key rule post. rs = pre @ (key, rule) # post
      \<and> rule_holds stod dps rule
      \<and> list_all (\<lambda>(k, r). \<not> rule_holds stod dps r \<and> \<not> rule_fails stod dps r) pre
      \<and> evaluate_loop stod dps rs result =
          result\<lparr>triggered := True, ruleName := name rule,
                 message := ''Trip rule triggered: '' @ expression rule\<rparr>"
proof (induction rs)
  case Nil
  then show ?case by simp
next
  case (Cons a rs)
  obtain k r where a: "a = (k, r)" by (cases a)
  show ?case
  proof (cases "rule_holds stod dps r")
    case True
    have "a # rs = [] @ (k, r) # rs" by (simp add: a)
    moreover have "evaluate_loop stod dps (a # rs) result =
        result\<lparr>triggered := True, ruleName := name r,
               message := ''Trip rule triggered: '' @ expression r\<rparr>"
      unfolding a by (rule evaluate_loop_hit [OF True])
    ultimately show ?thesis
      using True by (intro exI [of _ "[]"] exI [of _ k] exI [of _ r] exI [of _ rs]) simp
  next
    case False
    have nf: "\<not> rule_fails stod dps r"
      using Cons.prems evaluate_loop_fail [of stod dps r k rs result] unfolding a by blast
    have skip: "evaluate_loop stod dps (a # rs) result = evaluate_loop stod dps rs result"
      unfolding a by (rule evaluate_loop_skip [OF False nf])
    with Cons.prems have "triggered (evaluate_loop stod dps rs result)" by simp
    from Cons.IH [OF this] obtain pre key rule post where
      rs: "rs = pre @ (key, rule) # post" and h: "rule_holds stod dps rule"
      and p: "list_all (\<lambda>(k, r). \<not> rule_holds stod dps r \<and> \<not> rule_fails stod dps r) pre"
      and e: "evaluate_loop stod dps rs result =
          result\<lparr>triggered := True, ruleName := name rule,
                 message := ''Trip rule triggered: '' @ expression rule\<rparr>"
      by blast
    have "a # rs = (a # pre) @ (key, rule) # post" by (simp add: rs)
    moreover have "list_all (\<lambda>(k, r). \<not> rule_holds stod dps r \<and> \<not> rule_fails stod dps r) (a # pre)"
      using p False nf by (simp add: a)
    ultimately show ?thesis
      using h e skip by (intro exI [of _ "a # pre"] exI [of _ key] exI [of _ rule] exI [of _ post]) simp
  qed
qed

lemma evaluate_loop_none_holds:
  "list_all (\<lambda>(k, r). \<not> rule_holds stod dps r) rs \<Longrightarrow>
   \<not> triggered (evaluate_loop stod dps rs result)"
proof (induction rs)
  case Nil
  then show ?case by simp
next
  case (Cons a rs)
  obtain k r where a: "a = (k, r)" by (cases a)
  show ?case
  proof (cases "rule_fails stod dps r")
    case True
    then show ?thesis unfolding a by (rule evaluate_loop_fail)
  next
    case False
    then show ?thesis using Cons by (simp add: a evaluate_loop_skip)
  qed
qed

lemma evaluate_loop_some_holds:
  "list_all (\<lambda>(k, r). \<not> rule_fails stod dps r) rs \<Longrightarrow>
   list_ex (\<lambda>(k, r). rule_holds stod dps r) rs \<Longrightarrow>
   triggered (evaluate_loop stod dps rs result)"
proof (induction rs)
  case Nil
  then show ?case by simp
next
  case (Cons a rs)
  obtain k r where a: "a = (k, r)" by (cases a)
  show ?case
  proof (cases "rule_holds stod dps r")
    case True
    then show ?thesis by (simp add: a evaluate_loop_hit)
  next
    case False
    then show ?thesis using Cons by (simp add: a evaluate_loop_skip)
  qed
qed

lemma sorted_split_le:
  fixes key :: string
  assumes "sorted_wrt (<) (map fst (pre @ (key, rule) # post))"
    and "(k', r') \<in> set (pre @ (key, rule) # post)"
    and "(k', r') \<notin> set pre"
  shows "key \<le> k'"
  using assms by (force simp add: sorted_wrt_append)

lemma evaluate_triggered_first:
  assumes inv: "rules_inv (rules ev)"
    and trig: "triggered (TripRuleEvaluator_evaluate stod now ev)"
  shows "\<exists>rule. (ruleName (TripRuleEvaluator_evaluate stod now ev), rule) \<in> set (rules ev)
           \<and> rule_holds stod (dataPoints ev) rule
           \<and> message (TripRuleEvaluator_evaluate stod now ev)
               = ''Trip rule triggered: '' @ expression rule
           \<and> list_all (\<lambda>(k, r). rule_holds stod (dataPoints ev) r
                 \<longrightarrow> ruleName (TripRuleEvaluator_evaluate stod now ev) \<le> k) (rules ev)"
proof -
  let ?r0 = "\<lparr>triggered = False, ruleName = [], message = [], timestamp = now\<rparr>"
  let ?res = "TripRuleEvaluator_evaluate stod now ev"
  have res: "?res = evaluate_loop stod (dataPoints ev) (rules ev) ?r0"
    by (simp add: TripRuleEvaluator_evaluate_def)
  from inv have sorted: "sorted_wrt (<) (map fst (rules ev))"
    and names: "list_all (\<lambda>(k, rule). name rule = k) (rules ev)"
    by (simp_all add: rules_inv_def)
  from trig res have "triggered (evaluate_loop stod (dataPoints ev) (rules ev) ?r0)" by simp
  from evaluate_loop_triggered_split [OF this] obtain pre key rule post where
    rs: "rules ev = pre @ (key, rule) # post"
    and h: "rule_holds stod (dataPoints ev) rule"
    and p: "list_all (\<lambda>(k, r). \<not> rule_holds stod (dataPoints ev) r
               \<and> \<not> rule_fails stod (dataPoints ev) r) pre"
    and e: "evaluate_loop stod (dataPoints ev) (rules ev) ?r0 =
          ?r0\<lparr>triggered := True, ruleName := name rule,
               message := ''Trip rule triggered: '' @ expression rule\<rparr>"
    by blast
  have mem: "(key, rule) \<in> set (rules ev)" by (simp add: rs)
  with names have nm: "name rule = key" by (auto simp add: list_all_iff)
  have rn: "ruleName ?res = key" using res e nm by simp
  have msg: "message ?res = ''Trip rule triggered: '' @ expression rule" using res e by simp
  have least: "key \<le> k'" if "(k', r') \<in> set (rules ev)" "rule_holds stod (dataPoints ev) r'" for k' r'
  proof -
    have "(k', r') \<notin> set pre" using p that(2) by (auto simp add: list_all_iff)
    with sorted that(1) show ?thesis
      unfolding rs by (intro sorted_split_le [of pre key rule post k' r']) simp_all
  qed
  have "list_all (\<lambda>(k, r). rule_holds stod (dataPoints ev) r \<longrightarrow> ruleName ?res \<le> k) (rules ev)"
    unfolding rn using least by (auto simp add: list_all_iff)
  with mem h rn msg show ?thesis by blast
qed


text \<open>
  Claim C10.  \<open>evaluate()\<close> walks \<open>rules_\<close> in the order of the rule names, whatever the
  order in which the rules were installed: the container is kept in strictly increasing
  key order with every rule stored under its name by \<open>addRule\<close> (likewise by
  \<open>removeRule\<close>, \<open>setRuleEnabled\<close> and \<open>clearRules\<close>), and installing two rules of
  different names in either order gives the same container.  Hence a triggered result
  names an enabled rule whose AST evaluates to true and whose name is the least among
  such rules, and carries its expression in the message; when no enabled rule holds the
  result is not triggered; and when some enabled rule holds and no enabled rule throws,
  the result is triggered.
\<close>

theorem evaluate_rules_in_name_order:
  assumes "rules_inv (rules ev)"
  shows "rules_inv (rules (snd (addRule parseExpression n1 e1 ev)))
    \<and> rules_inv (rules (removeRule n1 ev))
    \<and> rules_inv (rules (setRuleEnabled n1 en ev))
    \<and> (n1 \<noteq> n2 \<longrightarrow>
         rules (snd (addRule parseExpression n1 e1 (snd (addRule parseExpression n2 e2 ev)))) =
         rules (snd (addRule parseExpression n2 e2 (snd (addRule parseExpression n1 e1 ev)))))
    \<and> (triggered (TripRuleEvaluator_evaluate stod now ev) \<longrightarrow>
         (\<exists>rule. (ruleName (TripRuleEvaluator_evaluate stod now ev), rule) \<in> set (rules ev)
            \<and> rule_holds stod (dataPoints ev) rule
            \<and> message (TripRuleEvaluator_evaluate stod now ev)
                = ''Trip rule triggered: '' @ expression rule
            \<and> list_all (\<lambda>(k, r). rule_holds stod (dataPoints ev) r
                  \<longrightarrow> ruleName (TripRuleEvaluator_evaluate stod now ev) \<le> k) (rules ev)))
    \<and> (list_all (\<lambda>(k, r). \<not> rule_holds stod (dataPoints ev) r) (rules ev) \<longrightarrow>
         \<not> triggered (TripRuleEvaluator_evaluate stod now ev))
    \<and> (list_all (\<lambda>(k, r). \<not> rule_fails stod (dataPoints ev) r) (rules ev)
         \<and> list_ex (\<lambda>(k, r). rule_holds stod (dataPoints ev) r) (rules ev) \<longrightarrow>
         triggered (TripRuleEvaluator_evaluate stod now ev))"
proof (intro conjI impI)
  show "rules_inv (rules (snd (addRule parseExpression n1 e1 ev)))"
    using assms by (rule rules_inv_addRule)
next
  show "rules_inv (rules (removeRule n1 ev))"
    using assms by (rule rules_inv_removeRule)
next
  show "rules_inv (rules (setRuleEnabled n1 en ev))"
    using assms by (rule rules_inv_setRuleEnabled)
next
  assume "n1 \<noteq> n2"
  then show "rules (snd (addRule parseExpression n1 e1 (snd (addRule parseExpression n2 e2 ev)))) =
         rules (snd (addRule parseExpression n2 e2 (snd (addRule parseExpression n1 e1 ev))))"
    by (rule addRule_commute)
next
  assume "triggered (TripRuleEvaluator_evaluate stod now ev)"
  with assms show "\<exists>rule. (ruleName (TripRuleEvaluator_evaluate stod now ev), rule) \<in> set (rules ev)
            \<and> rule_holds stod (dataPoints ev) rule
            \<and> message (TripRuleEvaluator_evaluate stod now ev)
                = ''Trip rule triggered: '' @ expression rule
            \<and> list_all (\<lambda>(k, r). rule_holds stod (dataPoints ev) r
                  \<longrightarrow> ruleName (TripRuleEvaluator_evaluate stod now ev) \<le> k) (rules ev)"
    by (rule evaluate_triggered_first)
next
  assume "list_all (\<lambda>(k, r). \<not> rule_holds stod (dataPoints ev) r) (rules ev)"
  then show "\<not> triggered (TripRuleEvaluator_evaluate stod now ev)"
    unfolding TripRuleEvaluator_evaluate_def by (rule evaluate_loop_none_holds)
next
  assume "list_all (\<lambda>(k, r). \<not> rule_fails stod (dataPoints ev) r) (rules ev)
         \<and> list_ex (\<lambda>(k, r). rule_holds stod (dataPoints ev) r) (rules ev)"
  then show "triggered (TripRuleEvaluator_evaluate stod now ev)"
    unfolding TripRuleEvaluator_evaluate_def by (intro evaluate_loop_some_holds) simp_all
qed


theorem evaluate_rules_in_name_order_witness:
  "rules_inv (rules (snd (addRule example_parser ''alpha'' ''A == true''
       (snd (addRule example_parser ''zeta'' ''A == true''
          (updateDataPoint_bool ''A'' True TripRuleEvaluator_new))))))
   \<and> triggered (TripRuleEvaluator_evaluate stod_refuse 0
       (snd (addRule example_parser ''alpha'' ''A == true''
          (snd (addRule example_parser ''zeta'' ''A == true''
             (updateDataPoint_bool ''A'' True TripRuleEvaluator_new))))))
   \<and> ruleName (TripRuleEvaluator_evaluate stod_refuse 0
       (snd (addRule example_parser ''alpha'' ''A == true''
          (snd (addRule example_parser ''zeta'' ''A == true''
             (updateDataPoint_bool ''A'' True TripRuleEvaluator_new)))))) = ''alpha''
   \<and> \<not> triggered (TripRuleEvaluator_evaluate stod_refuse 0
       (snd (addRule example_parser ''alpha'' ''A == true''
          (snd (addRule example_parser ''zeta'' ''A == true''
             (updateDataPoint_bool ''A'' False TripRuleEvaluator_new))))))"
proof -
  let ?p = example_parser
  let ?ev0 = "snd (addRule ?p ''alpha'' ''A == true'' (snd (addRule ?p ''zeta'' ''A == true''
                (updateDataPoint_bool ''A'' True TripRuleEvaluator_new))))"
  let ?ev1 = "snd (addRule ?p ''alpha'' ''A == true'' (snd (addRule ?p ''zeta'' ''A == true''
                (updateDataPoint_bool ''A'' False TripRuleEvaluator_new))))"
  have r0: "rules ?ev0 =
      [(''alpha'', \<lparr>name = ''alpha'', expression = ''A == true'',
                    ast = Some (ComparisonNode ''A'' EQUALS ''true''), enabled = True\<rparr>),
       (''zeta'', \<lparr>name = ''zeta'', expression = ''A == true'',
                   ast = Some (ComparisonNode ''A'' EQUALS ''true''), enabled = True\<rparr>)]"
    by (simp add: addRule_def example_parser_def updateDataPoint_bool_def TripRuleEvaluator_new_def)
  have r1: "rules ?ev1 = rules ?ev0"
    by (simp add: addRule_def example_parser_def updateDataPoint_bool_def TripRuleEvaluator_new_def)
  have inv0: "rules_inv (rules ?ev0)"
    unfolding r0 by (simp add: rules_inv_def)
  have inv1: "rules_inv (rules ?ev1)"
    unfolding r1 r0 by (simp add: rules_inv_def)
  have d0: "dataPoints ?ev0 ''A'' = Some \<lparr>path = ''A'', boolValue = True, intValue = 0,
      floatValue = 0, dataType = ''bool''\<rparr>"
    by (simp add: addRule_def example_parser_def updateDataPoint_bool_def TripRuleEvaluator_new_def)
  have d1: "dataPoints ?ev1 ''A'' = Some \<lparr>path = ''A'', boolValue = False, intValue = 0,
      floatValue = 0, dataType = ''bool''\<rparr>"
    by (simp add: addRule_def example_parser_def updateDataPoint_bool_def TripRuleEvaluator_new_def)
  have h0: "list_all (\<lambda>(k, r). \<not> rule_fails stod_refuse (dataPoints ?ev0) r) (rules ?ev0)
        \<and> list_ex (\<lambda>(k, r). rule_holds stod_refuse (dataPoints ?ev0) r) (rules ?ev0)"
    unfolding r0 using d0 by (simp add: rule_fails_def rule_holds_def)
  have h1: "list_all (\<lambda>(k, r). \<not> rule_holds stod_refuse (dataPoints ?ev1) r) (rules ?ev1)"
    unfolding r1 r0 using d1 by (simp add: rule_holds_def)
  have t0: "triggered (TripRuleEvaluator_evaluate stod_refuse 0 ?ev0)"
    using evaluate_rules_in_name_order [OF inv0, of ?p "''x''" "''ex''" True "''y''" "''ey''" stod_refuse 0] h0
    by blast
  have n0: "ruleName (TripRuleEvaluator_evaluate stod_refuse 0 ?ev0) = ''alpha''"
    unfolding TripRuleEvaluator_evaluate_def r0 using d0 by (simp add: evaluate_loop.simps)
  have t1: "\<not> triggered (TripRuleEvaluator_evaluate stod_refuse 0 ?ev1)"
    using evaluate_rules_in_name_order [OF inv1, of ?p "''x''" "''ex''" True "''y''" "''ey''" stod_refuse 0] h1
    by blast
  from inv0 t0 n0 t1 show ?thesis by blast
qed

section \<open>Properties of the SV publisher\<close>

lemma those_map_total:
  "(\<And>x. x \<in> set xs \<Longrightarrow> f x \<noteq> None) \<Longrightarrow>
   \<exists>ys. those (map f xs) = Some ys \<and> length ys = length xs"
proof (induction xs)
  case Nil
  then show ?case by simp
next
  case (Cons x xs)
  then obtain y where y: "f x = Some y" by fastforce
  from Cons obtain ys where "those (map f xs) = Some ys" "length ys = length xs" by fastforce
  then show ?case using y by simp
qed

lemma those_replicate: "those (replicate n (Some x)) = Some (replicate n x)"
  by (induction n) simp_all

lemma generateSamples_total:
  assumes "dataSource (config p) = MANUAL \<Longrightarrow>
      \<forall>ph\<in>set (phasors p). synthesise (sampleCounter p) (config p) ph \<noteq> None"
  shows "\<exists>samples. generateSamples synthesise p = Inr samples
           \<and> length samples = length (phasors p)"
proof (cases "dataSource (config p)")
  case MANUAL
  with assms have "\<And>ph. ph \<in> set (phasors p)
      \<Longrightarrow> synthesise (sampleCounter p) (config p) ph \<noteq> None" by blast
  from those_map_total [of "phasors p" "synthesise (sampleCounter p) (config p)", OF this]
  show ?thesis using MANUAL by (auto simp add: generateSamples_def)
next
  case COMTRADE
  then show ?thesis by (simp add: generateSamples_def)
next
  case CSV
  then show ?thesis by (simp add: generateSamples_def)
qed

lemma tick_running:
  assumes "running p" "0 \<le> rawSocket p" "stoul (appId (config p)) 16 = Inr a"
    "sampleRate (config p) \<noteq> 0"
    "32 + length (svId (config p)) mod 256 + 8 * length (phasors p) \<le> MAX_SV_FRAME_SIZE"
    "dataSource (config p) = MANUAL \<Longrightarrow>
      \<forall>ph\<in>set (phasors p). synthesise (sampleCounter p) (config p) ph \<noteq> None"
  shows "\<exists>f. tick synthesise p = Inr (p\<lparr>sampleCounter := sampleCounter p + 1\<rparr>, Some f)
             \<and> smpCnt f = ucast (sampleCounter p mod sampleRate (config p))"
proof -
  from generateSamples_total [of p synthesise, OF assms(6)]
  obtain samples where g: "generateSamples synthesise p = Inr samples"
    and l: "length samples = length (phasors p)" by blast
  show ?thesis
    using assms(1-5) g l by (simp add: tick_def sendSVPacket_def Let_def)
qed

lemma ticks_running:
  assumes "0 \<le> rawSocket p" "stoul (appId (config p)) 16 = Inr a" "sampleRate (config p) \<noteq> 0"
    "32 + length (svId (config p)) mod 256 + 8 * length (phasors p) \<le> MAX_SV_FRAME_SIZE"
    "dataSource (config p) = MANUAL \<Longrightarrow>
      \<forall>c. \<forall>ph\<in>set (phasors p). synthesise c (config p) ph \<noteq> None"
  shows "running p \<Longrightarrow>
     \<exists>outs. ticks synthesise n p = Inr (p\<lparr>sampleCounter := sampleCounter p + of_nat n\<rparr>, outs)
        \<and> length outs = n
        \<and> (\<forall>k<n. \<exists>f. outs ! k = Some f
              \<and> smpCnt f = ucast ((sampleCounter p + of_nat k) mod sampleRate (config p)))"
  using assms
proof (induction n arbitrary: p)
  case 0
  then show ?case by simp
next
  case (Suc n)
  let ?p1 = "p\<lparr>sampleCounter := sampleCounter p + 1\<rparr>"
  have sy: "dataSource (config p) = MANUAL \<Longrightarrow>
      \<forall>ph\<in>set (phasors p). synthesise (sampleCounter p) (config p) ph \<noteq> None"
    using Suc.prems(6) by blast
  from tick_running [of p a synthesise, OF Suc.prems(1) Suc.prems(2) Suc.prems(3) Suc.prems(4) Suc.prems(5) sy]
  obtain f where t: "tick synthesise p = Inr (?p1, Some f)"
    and f: "smpCnt f = ucast (sampleCounter p mod sampleRate (config p))"
    by blast
  have "\<exists>outs. ticks synthesise n ?p1
          = Inr (?p1\<lparr>sampleCounter := sampleCounter ?p1 + of_nat n\<rparr>, outs)
        \<and> length outs = n
        \<and> (\<forall>k<n. \<exists>f. outs ! k = Some f
              \<and> smpCnt f = ucast ((sampleCounter ?p1 + of_nat k) mod sampleRate (config ?p1)))"
    using Suc.prems by (intro Suc.IH) simp_all
  then obtain outs where
    o: "ticks synthesise n ?p1 = Inr (?p1\<lparr>sampleCounter := sampleCounter ?p1 + of_nat n\<rparr>, outs)"
    and l: "length outs = n"
    and a: "\<forall>k<n. \<exists>f. outs ! k = Some f
              \<and> smpCnt f = ucast ((sampleCounter ?p1 + of_nat k) mod sampleRate (config ?p1))"
    by blast
  have r: "ticks synthesise (Suc n) p
      = Inr (p\<lparr>sampleCounter := sampleCounter p + of_nat (Suc n)\<rparr>, Some f # outs)"
    using t o by (simp add: ac_simps)
  have "\<exists>g. (Some f # outs) ! k = Some g
              \<and> smpCnt g = ucast ((sampleCounter p + of_nat k) mod sampleRate (config p))"
    if "k < Suc n" for k
  proof (cases k)
    case 0
    then show ?thesis using f by simp
  next
    case (Suc j)
    then have "j < n" using that by simp
    with a obtain g where "outs ! j = Some g"
      "smpCnt g = ucast ((sampleCounter ?p1 + of_nat j) mod sampleRate (config ?p1))" by blast
    then show ?thesis using Suc by (simp add: ac_simps)
  qed
  with r l show ?case by auto
qed

lemma unat_smpCnt:
  fixes r :: u32
  shows "unat (ucast (of_nat k mod r :: u32) :: u16) = ((k mod 2 ^ 32) mod unat r) mod 65536"
  by (simp add: unsigned_ucast_eq unat_mod unat_of_nat take_bit_eq_mod)

lemma S1_stoul: "stoul (appId (config S1_publisher)) 16 = Inr 16384"
  by (simp add: S1_publisher_def S1_config_def stoul_def strtol_def isspace_def is_digit_in_def
      digit_value_def)

lemma S1_facts:
  "0 \<le> rawSocket (start S1_publisher)" "sampleRate (config (start S1_publisher)) = 4800"
  "running (start S1_publisher)" "sampleCounter (start S1_publisher) = 0"
  "appId (config (start S1_publisher)) = appId (config S1_publisher)"
  "0 \<le> rawSocket S1_publisher" "sampleRate (config S1_publisher) = 4800"
  by (simp_all add: S1_publisher_def S1_config_def start_def)

lemma S1_fits:
  "32 + length (svId (config S1_publisher)) mod 256 + 8 * length (phasors S1_publisher)
     \<le> MAX_SV_FRAME_SIZE"
  "32 + length (svId (config (start S1_publisher))) mod 256
      + 8 * length (phasors (start S1_publisher)) \<le> MAX_SV_FRAME_SIZE"
  by (simp_all add: S1_publisher_def S1_config_def start_def MAX_SV_FRAME_SIZE_def)

lemma S1_synthesis:
  "\<forall>c. \<forall>ph\<in>set (phasors S1_publisher). zero_magnitude c (config S1_publisher) ph \<noteq> None"
  "\<forall>c. \<forall>ph\<in>set (phasors (start S1_publisher)).
      zero_magnitude c (config (start S1_publisher)) ph \<noteq> None"
  by (simp_all add: S1_publisher_def start_def zero_magnitude_def)

text \<open>
  Claim C2, as stated, fails.  \<open>tick\<close> never resets \<open>sampleCounter_\<close>, and the frame does
  not carry the counter modulo 65536: \<open>sendSVPacket\<close> writes the counter modulo the sample
  rate.  For the publisher of scenario S1 (4800 samples per second) the counter is 4800,
  not 0, after 4800 ticks, and the frame of the next tick carries 0, not 4800.
\<close>

theorem smpCnt_counter_not_reset:
  "final_counter (ticks zero_magnitude 4800 (start S1_publisher)) = Inr 4800
   \<and> final_counter (ticks zero_magnitude 4800 (start S1_publisher)) \<noteq> Inr 0
   \<and> smpCnt_at 4800 (ticks zero_magnitude 4801 (start S1_publisher)) = Inr (Some 0)
   \<and> smpCnt_at 4800 (ticks zero_magnitude 4801 (start S1_publisher))
       \<noteq> Inr (Some (ucast (4800 :: u32)))"
proof -
  have a: "stoul (appId (config (start S1_publisher))) 16 = Inr 16384"
    using S1_stoul by (simp add: S1_facts)
  have nz: "sampleRate (config (start S1_publisher)) \<noteq> 0" by (simp add: S1_facts)
  from ticks_running [of "start S1_publisher" 16384 zero_magnitude 4800,
      OF S1_facts(1) a nz S1_fits(2) S1_synthesis(2) S1_facts(3)]
  have c: "final_counter (ticks zero_magnitude 4800 (start S1_publisher)) = Inr 4800"
    by (auto simp add: final_counter_def S1_facts)
  from ticks_running [of "start S1_publisher" 16384 zero_magnitude 4801,
      OF S1_facts(1) a nz S1_fits(2) S1_synthesis(2) S1_facts(3)]
  obtain outs where o: "ticks zero_magnitude 4801 (start S1_publisher)
        = Inr ((start S1_publisher)\<lparr>sampleCounter := sampleCounter (start S1_publisher) + of_nat 4801\<rparr>, outs)"
    and l: "length outs = 4801"
    and k: "\<forall>k<4801. \<exists>f. outs ! k = Some f
              \<and> smpCnt f = ucast ((sampleCounter (start S1_publisher) + of_nat k)
                                    mod sampleRate (config (start S1_publisher)))"
    by blast
  from k [rule_format, of 4800] obtain f where f: "outs ! 4800 = Some f"
    "smpCnt f = ucast ((sampleCounter (start S1_publisher) + of_nat 4800)
                                    mod sampleRate (config (start S1_publisher)))"
    by auto
  have "smpCnt f = 0" using f(2) by (simp add: S1_facts)
  then show ?thesis using c o l f(1) by (simp add: smpCnt_at_def)
qed

text \<open>
  Claim C2, amended.  Take a publisher with an open socket, an \<open>appId\<close> that \<open>std::stoul\<close>
  reads, a sample rate other than zero, a frame that fits the buffer of
  \<open>MAX_SV_FRAME_SIZE\<close> bytes (32 bytes, the \<open>svId\<close> and 8 bytes per phasor) and, for the
  data source \<open>MANUAL\<close>, samples within the range of \<open>int16_t\<close>.  Then every one of \<open>n\<close>
  ticks after \<open>start()\<close> sends a frame; the frame of tick number \<open>k\<close> (from 0) carries
  \<open>smpCnt = ((k mod 2^32) mod sampleRate) mod 65536\<close>, that is the 32-bit counter modulo
  the sample rate, truncated to 16 bits; the counter itself is \<open>n mod 2^32\<close> after the
  \<open>n\<close> ticks and is not reset at the sample rate.  With \<open>sampleRate = 4800\<close> the series on
  the wire is 0, 1, ..., 4799 over the first 4800 ticks and 0 at the next tick.
\<close>

theorem smpCnt_on_wire:
  assumes "0 \<le> rawSocket p" and "stoul (appId (config p)) 16 = Inr a"
    and "sampleRate (config p) \<noteq> 0"
    and "32 + length (svId (config p)) mod 256 + 8 * length (phasors p) \<le> MAX_SV_FRAME_SIZE"
    and "dataSource (config p) = MANUAL \<Longrightarrow>
      \<forall>c. \<forall>ph\<in>set (phasors p). synthesise c (config p) ph \<noteq> None"
  shows "\<exists>outs. ticks synthesise n (start p) = Inr ((start p)\<lparr>sampleCounter := of_nat n\<rparr>, outs)
      \<and> length outs = n
      \<and> (\<forall>k<n. \<exists>f. outs ! k = Some f
            \<and> unat (smpCnt f) = ((k mod 2 ^ 32) mod unat (sampleRate (config p))) mod 65536)
      \<and> (sampleRate (config p) = 4800 \<and> 4800 < n \<longrightarrow>
            (\<forall>k<4800. \<exists>f. outs ! k = Some f \<and> unat (smpCnt f) = k)
            \<and> (\<exists>f. outs ! 4800 = Some f \<and> unat (smpCnt f) = 0))"
proof -
  have s: "0 \<le> rawSocket (start p)" "stoul (appId (config (start p))) 16 = Inr a"
    "sampleRate (config (start p)) \<noteq> 0" "running (start p)" "sampleCounter (start p) = 0"
    "config (start p) = config p"
    "32 + length (svId (config (start p))) mod 256 + 8 * length (phasors (start p))
       \<le> MAX_SV_FRAME_SIZE"
    using assms(1-4) by (simp_all add: start_def)
  have sy: "dataSource (config (start p)) = MANUAL \<Longrightarrow>
      \<forall>c. \<forall>ph\<in>set (phasors (start p)). synthesise c (config (start p)) ph \<noteq> None"
    using assms(5) by (simp add: start_def)
  from ticks_running [of "start p" a synthesise n, OF s(1) s(2) s(3) s(7) sy s(4)]
  obtain outs where o: "ticks synthesise n (start p) = Inr ((start p)\<lparr>sampleCounter := of_nat n\<rparr>, outs)"
    and l: "length outs = n"
    and k: "\<forall>k<n. \<exists>f. outs ! k = Some f
              \<and> smpCnt f = ucast (of_nat k mod sampleRate (config p))"
    by (auto simp add: s(5) s(6))
  have g: "\<exists>f. outs ! k = Some f
            \<and> unat (smpCnt f) = ((k mod 2 ^ 32) mod unat (sampleRate (config p))) mod 65536"
    if "k < n" for k
  proof -
    from k that obtain f where "outs ! k = Some f"
      "smpCnt f = ucast (of_nat k mod sampleRate (config p))" by blast
    then show ?thesis using unat_smpCnt [of k "sampleRate (config p)"] by simp
  qed
  have h: "(\<forall>k<4800. \<exists>f. outs ! k = Some f \<and> unat (smpCnt f) = k)
            \<and> (\<exists>f. outs ! 4800 = Some f \<and> unat (smpCnt f) = 0)"
    if r: "sampleRate (config p) = 4800" and n: "4800 < n"
  proof (intro conjI allI impI)
    fix j :: nat
    assume j: "j < 4800"
    with n have "j < n" by simp
    from g [OF this] show "\<exists>f. outs ! j = Some f \<and> unat (smpCnt f) = j"
      using j by (simp add: r)
  next
    from g [OF n] show "\<exists>f. outs ! 4800 = Some f \<and> unat (smpCnt f) = 0"
      by (simp add: r)
  qed
  from o l g h show ?thesis by blast
qed

theorem smpCnt_on_wire_witness:
  "0 \<le> rawSocket S1_publisher
   \<and> stoul (appId (config S1_publisher)) 16 = Inr 16384
   \<and> sampleRate (config S1_publisher) \<noteq> 0
   \<and> 32 + length (svId (config S1_publisher)) mod 256 + 8 * length (phasors S1_publisher)
       \<le> MAX_SV_FRAME_SIZE
   \<and> (\<forall>c. list_all (\<lambda>ph. zero_magnitude c (config S1_publisher) ph \<noteq> None)
              (phasors S1_publisher))
   \<and> final_counter (ticks zero_magnitude 4801 (start S1_publisher)) = Inr 4801
   \<and> smpCnt_at 4799 (ticks zero_magnitude 4801 (start S1_publisher)) = Inr (Some 4799)
   \<and> smpCnt_at 4800 (ticks zero_magnitude 4801 (start S1_publisher)) = Inr (Some 0)"
proof -
  have nz: "sampleRate (config S1_publisher) \<noteq> 0" by (simp add: S1_facts)
  from smpCnt_on_wire [of S1_publisher 16384 zero_magnitude 4801,
      OF S1_facts(6) S1_stoul nz S1_fits(1) S1_synthesis(1)]
  obtain outs where o: "ticks zero_magnitude 4801 (start S1_publisher)
        = Inr ((start S1_publisher)\<lparr>sampleCounter := of_nat 4801\<rparr>, outs)"
    and l: "length outs = 4801"
    and k: "\<forall>k<4800. \<exists>f. outs ! k = Some f \<and> unat (smpCnt f) = k"
    and z: "\<exists>f. outs ! 4800 = Some f \<and> unat (smpCnt f) = 0"
    using S1_facts(7) by auto
  from k [rule_format, of 4799] obtain f where f: "outs ! 4799 = Some f" "unat (smpCnt f) = 4799"
    by auto
  from z obtain g where g: "outs ! 4800 = Some g" "unat (smpCnt g) = 0" by blast
  have "smpCnt f = 4799" using f(2) by (simp add: word_unat_eq_iff)
  moreover have "smpCnt g = 0" using g(2) by (simp add: word_unat_eq_iff)
  ultimately show ?thesis
    using o l f(1) g(1) S1_facts(6) S1_stoul nz S1_fits(1) S1_synthesis(1)
    by (simp add: smpCnt_at_def final_counter_def list_all_iff)
qed

text \<open>
  The bound on the frame is needed: a publisher like that of S1 with 186 phasors, which
  \<open>setPhasors\<close> accepts, needs 32 + 8 + 8 * 186 = 1528 bytes, and its first tick writes
  past the end of the buffer.
\<close>

lemma tick_past_buffer:
  "tick zero_magnitude
     (start (setPhasors (replicate 186 \<lparr>magnitude = 0, angle = 0\<rparr>) S1_publisher))
   = Inl (Fault ''write past the end of the frame buffer'')"
proof -
  let ?p = "start (setPhasors (replicate 186 \<lparr>magnitude = 0, angle = 0\<rparr>) S1_publisher)"
  have g: "generateSamples zero_magnitude ?p = Inr (replicate 186 0)"
    by (simp add: generateSamples_def start_def setPhasors_def S1_publisher_def S1_config_def
        zero_magnitude_def those_replicate)
  have c: "rawSocket ?p = 3" "running ?p" "config ?p = S1_config"
    by (simp_all add: start_def setPhasors_def S1_publisher_def)
  have st: "stoul (appId S1_config) 16 = Inr 16384"
    using S1_stoul by (simp add: S1_publisher_def)
  show ?thesis
    unfolding tick_def sendSVPacket_def g using c st
    by (simp add: Let_def MAX_SV_FRAME_SIZE_def S1_config_def)
qed

text \<open>
  Claim C9.  While the running flag is false, \<open>tick()\<close> sends no frame and returns the
  publisher as it was (counter, configuration, phasors and harmonics included); and a
  tick that changes the sample counter was performed while running.
\<close>

theorem tick_not_running:
  "(\<not> running p \<longrightarrow> tick gen p = Inr (p, None))
   \<and> (tick gen p = Inr (p', out) \<and> sampleCounter p' \<noteq> sampleCounter p \<longrightarrow> running p)"
  by (auto simp add: tick_def)

theorem tick_not_running_witness:
  "\<not> running S1_publisher
   \<and> tick zero_magnitude S1_publisher = Inr (S1_publisher, None)
   \<and> tick zero_magnitude (stop (start S1_publisher)) = Inr (stop (start S1_publisher), None)
   \<and> final_counter (ticks zero_magnitude 1 (start S1_publisher)) = Inr 1
   \<and> running (start S1_publisher)"
proof -
  have a: "\<not> running S1_publisher" by (simp add: S1_publisher_def)
  have b: "\<not> running (stop (start S1_publisher))" by (simp add: stop_def)
  have g: "generateSamples zero_magnitude (start S1_publisher) = Inr (replicate 8 0)"
    by (simp add: generateSamples_def start_def S1_publisher_def S1_config_def
        zero_magnitude_def those_replicate)
  have c: "tick zero_magnitude (start S1_publisher)
      = Inr ((start S1_publisher)\<lparr>sampleCounter := 1\<rparr>, Some
          \<lparr> tci = 0x8064, appIdField = 0x4000, lengthField = 84, svIdField = ''TestSV01'',
            smpCnt = 0, confRev = 1, smpSynch = 1, sampleValues = replicate 8 (0, 0),
            frameLength = 104 \<rparr>)"
    unfolding tick_def sendSVPacket_def g using S1_stoul
    by (simp add: S1_facts S1_publisher_def S1_config_def start_def MAX_SV_FRAME_SIZE_def
        Let_def)
  have d: "sampleCounter ((start S1_publisher)\<lparr>sampleCounter := 1\<rparr>) \<noteq> sampleCounter (start S1_publisher)"
    by (simp add: S1_facts)
  show ?thesis
    using a b c d tick_not_running [of S1_publisher zero_magnitude]
      tick_not_running [of "stop (start S1_publisher)" zero_magnitude]
      tick_not_running [of "start S1_publisher" zero_magnitude "(start S1_publisher)\<lparr>sampleCounter := 1\<rparr>"]
    by (auto simp add: final_counter_def)
qed


section \<open>Properties of the publisher registry\<close>

lemma value_string_request [simp]:
  "value_string (request_json r) ''appId'' d = Inr (req_appId r)"
  "value_string (request_json r) ''macDst'' d = Inr (req_macDst r)"
  "value_string (request_json r) ''macSrc'' d = Inr (req_macSrc r)"
  "value_string (request_json r) ''svId'' d = Inr (req_svId r)"
  "value_string (request_json r) ''dstAddress'' d = Inr (req_dstAddress r)"
  "value_string (request_json r) ''dataSource'' d = Inr (req_dataSource r)"
  "value_string (request_json r) ''filePath'' d = Inr (req_filePath r)"
  by (simp_all add: value_string_def json_member_def request_json_def)

lemma value_int_request [simp]:
  "value_int (request_json r) ''vlanId'' d = Inr (word_of_int (req_vlanId r))"
  "value_int (request_json r) ''vlanPrio'' d = Inr (word_of_int (req_vlanPrio r))"
  "value_int (request_json r) ''sampleRate'' d = Inr (word_of_int (req_sampleRate r))"
  by (simp_all add: value_int_def json_member_def request_json_def)

lemma value_double_request [simp]:
  "value_double (request_json r) ''nominalFreq'' d = Inr (req_nominalFreq r)"
  by (simp add: value_double_def json_member_def request_json_def)

lemma mod_32_16: "n mod 4294967296 mod 65536 = n mod (65536::int)"
  by (rule mod_mod_cancel) simp

lemma mod_32_8: "n mod 4294967296 mod 256 = n mod (256::int)"
  by (rule mod_mod_cancel) simp

lemma ucast_word_of_int_16: "(ucast (word_of_int n :: u32) :: u16) = word_of_int n"
  by (simp add: ucast_eq take_bit_eq_mod word_of_int_eq_iff uint_word_of_int mod_32_16)

lemma ucast_word_of_int_8: "(ucast (word_of_int n :: u32) :: u8) = word_of_int n"
  by (simp add: ucast_eq take_bit_eq_mod word_of_int_eq_iff uint_word_of_int mod_32_8)

lemma parseConfig_request:
  "parseConfig (request_json r) =
     (if req_dataSource r = ''MANUAL'' \<or> req_dataSource r = ''COMTRADE'' \<or> req_dataSource r = ''CSV''
      then Inr (request_config r)
      else Inl (InvalidArgument (''Invalid dataSource: '' @ req_dataSource r)))"
  by (simp add: parseConfig_def sum_bind_def request_config_def ucast_word_of_int_16
      ucast_word_of_int_8)

lemma createStream_request:
  "createStream newId fd errno_text (request_json r) mgr =
     (if \<not> (req_dataSource r = ''MANUAL'' \<or> req_dataSource r = ''COMTRADE''
             \<or> req_dataSource r = ''CSV'')
      then Inl (InvalidArgument (''Invalid dataSource: '' @ req_dataSource r))
      else if fd < 0 then Inl (RuntimeError (''Failed to create raw socket: '' @ errno_text))
      else Inr (newId, mgr\<lparr>streams := (streams mgr)(newId \<mapsto>
             \<lparr> inst_id = newId, config = request_config r, running = False,
               phasors = (if req_dataSource r = ''MANUAL''
                          then replicate 8 \<lparr>magnitude = 0, angle = 0\<rparr> else []),
               harmonics = JArray [], sampleCounter = 0, rawSocket = fd \<rparr>)\<rparr>))"
  by (simp add: createStream_def parseConfig_request sum_bind_def SVPublisherInstance_new_def
      request_config_def)

text \<open>
  Claim C3, as stated, fails: \<open>parseConfig\<close> and \<open>createStream\<close> check neither the VLAN
  fields nor the MAC strings nor the sample rate.  The request \<open>bad_request\<close> (VLAN id
  5000, VLAN priority 9, a destination address that \<open>macStrToBytes\<close> rejects, sample rate
  0) is accepted: the stream id is returned and the stream is stored with these values.
\<close>

theorem createStream_accepts_out_of_range:
  "createStream ''stream-1'' 3 [] (request_json bad_request) SVPublisherManager_new =
     Inr (''stream-1'',
          SVPublisherManager_new\<lparr>streams := (streams SVPublisherManager_new)(''stream-1'' \<mapsto>
            \<lparr> inst_id = ''stream-1'', config = request_config bad_request, running = False,
              phasors = replicate 8 \<lparr>magnitude = 0, angle = 0\<rparr>,
              harmonics = JArray [], sampleCounter = 0, rawSocket = 3 \<rparr>)\<rparr>)
   \<and> vlanId (request_config bad_request) = 5000
   \<and> vlanPrio (request_config bad_request) = 9
   \<and> sampleRate (request_config bad_request) = 0
   \<and> macStrToBytes (macDst (request_config bad_request)) =
       Inl (InvalidArgument ''Invalid MAC address format: expected XX:XX:XX:XX:XX:XX'')"
  by (simp add: createStream_request) (simp add: bad_request_def request_config_def macStrToBytes_def)

text \<open>
  Claim C3, amended.  \<open>createStream\<close> converts the members of the request and checks only
  the \<open>dataSource\<close> tag.  For every request that gives all members with their JSON types:
  when the tag is one of \<open>MANUAL\<close>, \<open>COMTRADE\<close>, \<open>CSV\<close> and the raw socket opens, the new
  stream id is returned and the stream is stored under it with the members as given, the
  VLAN id, the VLAN priority and the sample rate cut to 16, 8 and 32 bits; when the tag is
  another text, creation fails with \<open>std::invalid_argument\<close>, and when the socket does
  not open, with \<open>std::runtime_error\<close>, whose text ends with the reason the C library
  gives; a failed creation adds no stream.
\<close>

theorem createStream_checks_dataSource_only:
  "(req_dataSource r = ''MANUAL'' \<or> req_dataSource r = ''COMTRADE'' \<or> req_dataSource r = ''CSV''
      \<longrightarrow>
      (0 \<le> fd \<longrightarrow>
         createStream newId fd errno_text (request_json r) mgr =
           Inr (newId, mgr\<lparr>streams := (streams mgr)(newId \<mapsto>
             \<lparr> inst_id = newId, config = request_config r, running = False,
               phasors = (if req_dataSource r = ''MANUAL''
                          then replicate 8 \<lparr>magnitude = 0, angle = 0\<rparr> else []),
               harmonics = JArray [], sampleCounter = 0, rawSocket = fd \<rparr>)\<rparr>))
      \<and> (fd < 0 \<longrightarrow>
         createStream newId fd errno_text (request_json r) mgr =
           Inl (RuntimeError (''Failed to create raw socket: '' @ errno_text))))
   \<and> (req_dataSource r \<noteq> ''MANUAL'' \<and> req_dataSource r \<noteq> ''COMTRADE''
        \<and> req_dataSource r \<noteq> ''CSV'' \<longrightarrow>
        createStream newId fd errno_text (request_json r) mgr =
          Inl (InvalidArgument (''Invalid dataSource: '' @ req_dataSource r)))"
  by (simp add: createStream_request)

theorem createStream_checks_dataSource_only_witness:
  "streams (snd (projr (createStream ''stream-1'' 3 [] (request_json bad_request)
      SVPublisherManager_new))) ''stream-1'' =
     Some \<lparr> inst_id = ''stream-1'', config = request_config bad_request, running = False,
            phasors = replicate 8 \<lparr>magnitude = 0, angle = 0\<rparr>,
            harmonics = JArray [], sampleCounter = 0, rawSocket = 3 \<rparr>
   \<and> createStream ''stream-1'' (- 1) ''Operation not permitted'' (request_json bad_request)
       SVPublisherManager_new =
       Inl (RuntimeError ''Failed to create raw socket: Operation not permitted'')
   \<and> createStream ''stream-1'' 3 [] (request_json (bad_request\<lparr>req_dataSource := ''FILE''\<rparr>))
       SVPublisherManager_new = Inl (InvalidArgument ''Invalid dataSource: FILE'')"
proof -
  have a: "req_dataSource bad_request = ''MANUAL''" by (simp add: bad_request_def)
  have b: "req_dataSource (bad_request\<lparr>req_dataSource := ''FILE''\<rparr>) = ''FILE''" by simp
  show ?thesis
    using a b
      createStream_checks_dataSource_only [of bad_request 3 "''stream-1''" "[]"
        SVPublisherManager_new]
      createStream_checks_dataSource_only [of bad_request "- 1" "''stream-1''"
        "''Operation not permitted''" SVPublisherManager_new]
      createStream_checks_dataSource_only [of "bad_request\<lparr>req_dataSource := ''FILE''\<rparr>" 3
        "''stream-1''" "[]" SVPublisherManager_new]
    by simp
qed

section \<open>Properties of the differential tester\<close>

declare monitorTrip_loop.simps(2) [simp del]

lemma monitorTrip_loop_events:
  "list_all is_TripRead (fst (monitorTrip_loop t0 t1 init tripTime ts trs sts))"
proof (induction t0 t1 init tripTime ts trs sts rule: monitorTrip_loop.induct)
  case (1 t_start t_end initialTripState tripTime trs sts)
  then show ?case by simp
next
  case (2 t_start t_end initialTripState tripTime t ts trs sts)
  show ?case
  proof (cases "t < t_end")
    case False
    then show ?thesis by (simp add: monitorTrip_loop.simps(2))
  next
    case lt: True
    show ?thesis
    proof (cases sts)
      case Nil
      then show ?thesis using lt by (simp add: monitorTrip_loop.simps(2))
    next
      case sts: (Cons s sts')
      show ?thesis
      proof (cases s)
        case True
        then show ?thesis using lt sts by (simp add: monitorTrip_loop.simps(2))
      next
        case ns: False
        show ?thesis
        proof (cases trs)
          case Nil
          then show ?thesis using lt sts ns by (simp add: monitorTrip_loop.simps(2))
        next
          case trs: (Cons c trs')
          show ?thesis
          proof (cases "\<not> initialTripState \<and> c")
            case True
            then show ?thesis
              using lt sts ns trs by (cases ts) (simp_all add: monitorTrip_loop.simps(2))
          next
            case False
            have ih: "list_all is_TripRead
                (fst (monitorTrip_loop t_start t_end initialTripState tripTime ts trs' sts'))"
              using lt sts ns trs False by (intro "2.IH") simp_all
            obtain evs r where e: "monitorTrip_loop t_start t_end initialTripState tripTime ts trs' sts'
                = (evs, r)" by (cases "monitorTrip_loop t_start t_end initialTripState tripTime ts trs' sts'")
            have "monitorTrip_loop t_start t_end initialTripState tripTime (t # ts) trs sts
                = (TripRead c # evs, r)"
              using lt sts ns trs False e by (auto simp add: monitorTrip_loop.simps(2))
            then show ?thesis using ih e by simp
          qed
        qed
      qed
    qed
  qed
qed

lemma monitorTrip_events: "list_all is_TripRead (fst (monitorTrip env maxDuration tripTime))"
proof (cases "clock env")
  case Nil
  then show ?thesis by (simp add: monitorTrip_def)
next
  case c: (Cons t0 ts)
  show ?thesis
  proof (cases "trip_reads env")
    case Nil
    then show ?thesis using c by (simp add: monitorTrip_def)
  next
    case (Cons i trs)
    obtain evs r where e: "monitorTrip_loop t0
        (nat (int t0 + trunc_real (maxDuration * 1000) * 1000000)) i tripTime ts trs
           (stop_reads env) = (evs, r)"
      by (cases "monitorTrip_loop t0
        (nat (int t0 + trunc_real (maxDuration * 1000) * 1000000)) i tripTime ts trs
           (stop_reads env)")
    then show ?thesis
      using c Cons monitorTrip_loop_events
        [of t0 "nat (int t0 + trunc_real (maxDuration * 1000) * 1000000)" i tripTime ts trs
           "stop_reads env"]
      by (simp add: monitorTrip_def Let_def)
  qed
qed

text \<open>
  Claim C8.  \<open>calculateSideCurrents\<close> gives \<open>Is1 = Ir + Id/2\<close> and \<open>Is2 = -(Ir - Id/2)\<close>, in
  particular 225 and -175 for \<open>Ir = 200\<close>, \<open>Id = 50\<close>.  \<open>testPoint\<close> first calls the side-1
  setter with \<open>Is1\<close>; when neither setter throws, the events of \<open>testPoint\<close> are the call
  of the side-1 setter with \<open>Is1\<close>, the call of the side-2 setter with \<open>Is2\<close>, and after
  them nothing but reads of the trip flag; in every case no read of the trip flag comes
  before the two calls; and a result that is returned records \<open>Is1\<close> and \<open>Is2\<close>.
\<close>

theorem testPoint_sets_side_currents_first:
  "calculateSideCurrents (pt_Ir point) (pt_Id point) =
     (pt_Ir point + pt_Id point / 2, - (pt_Ir point - pt_Id point / 2))
   \<and> calculateSideCurrents 200 50 = (225, - 175)
   \<and> (setter1 (pt_Ir point + pt_Id point / 2) = None
        \<and> setter2 (- (pt_Ir point - pt_Id point / 2)) = None \<longrightarrow>
        (\<exists>reads. fst (testPoint setter1 setter2 env point cfg) =
             Side1Set (pt_Ir point + pt_Id point / 2)
             # Side2Set (- (pt_Ir point - pt_Id point / 2)) # reads
           \<and> list_all is_TripRead reads))
   \<and> (\<exists>reads. (fst (testPoint setter1 setter2 env point cfg) =
                   [Side1Set (pt_Ir point + pt_Id point / 2)]
                 \<or> fst (testPoint setter1 setter2 env point cfg) =
                   Side1Set (pt_Ir point + pt_Id point / 2)
                   # Side2Set (- (pt_Ir point - pt_Id point / 2)) # reads)
               \<and> list_all is_TripRead reads)
   \<and> (snd (testPoint setter1 setter2 env point cfg) = Some res \<longrightarrow>
        res_Is1 res = pt_Ir point + pt_Id point / 2
        \<and> res_Is2 res = - (pt_Ir point - pt_Id point / 2))"
proof -
  let ?is1 = "pt_Ir point + pt_Id point / 2"
  let ?is2 = "- (pt_Ir point - pt_Id point / 2)"
  let ?m = "monitorTrip env (maxTestDuration cfg) 0"
  have calc: "calculateSideCurrents (pt_Ir point) (pt_Id point) = (?is1, ?is2)"
    by (simp add: calculateSideCurrents_def)
  have ex: "calculateSideCurrents 200 50 = (225, - 175)"
    by (simp add: calculateSideCurrents_def)
  obtain evs r where m: "?m = (evs, r)" by (cases ?m)
  have reads: "list_all is_TripRead evs"
    using monitorTrip_events [of env "maxTestDuration cfg" 0] m by simp
  have ok: "fst (testPoint setter1 setter2 env point cfg) = Side1Set ?is1 # Side2Set ?is2 # evs"
    if "setter1 ?is1 = None" "setter2 ?is2 = None"
    using that m by (cases r) (auto simp add: testPoint_def calc)
  have t1: "fst (testPoint setter1 setter2 env point cfg) = [Side1Set ?is1]"
    if "setter1 ?is1 = Some msg" for msg
    using that by (simp add: testPoint_def calc)
  have t2: "fst (testPoint setter1 setter2 env point cfg) = Side1Set ?is1 # Side2Set ?is2 # []"
    if "setter1 ?is1 = None" "setter2 ?is2 = Some msg" for msg
    using that by (simp add: testPoint_def calc)
  have shape: "\<exists>reads. (fst (testPoint setter1 setter2 env point cfg) = [Side1Set ?is1]
                 \<or> fst (testPoint setter1 setter2 env point cfg) =
                     Side1Set ?is1 # Side2Set ?is2 # reads)
               \<and> list_all is_TripRead reads"
  proof (cases "setter1 ?is1")
    case (Some msg)
    from t1 [OF this] show ?thesis by (intro exI [of _ "[]"]) simp
  next
    case n1: None
    show ?thesis
    proof (cases "setter2 ?is2")
      case (Some msg)
      from t2 [OF n1 this] show ?thesis by (intro exI [of _ "[]"]) simp
    next
      case None
      from ok [OF n1 this] reads show ?thesis by (intro exI [of _ evs]) simp
    qed
  qed
  have res: "res_Is1 res = ?is1 \<and> res_Is2 res = ?is2"
    if sn: "snd (testPoint setter1 setter2 env point cfg) = Some res"
  proof (cases "setter1 ?is1")
    case (Some msg)
    then show ?thesis using sn by (auto simp add: testPoint_def calc)
  next
    case n1: None
    show ?thesis
    proof (cases "setter2 ?is2")
      case (Some msg)
      then show ?thesis using sn n1 by (auto simp add: testPoint_def calc)
    next
      case n2: None
      show ?thesis
      proof (cases r)
        case None
        then show ?thesis using sn n1 n2 m by (simp add: testPoint_def calc)
      next
        case (Some tt)
        obtain tripped tripTime where tt: "tt = (tripped, tripTime)" by (cases tt)
        show ?thesis
          using sn n1 n2 m Some tt
          by (cases tripped; cases "pt_expectedTime point = 0")
             (auto simp add: testPoint_def calc Let_def)
      qed
    qed
  qed
  from calc ex ok reads shape res show ?thesis by blast
qed

lemma S5_monitor:
  "monitorTrip S5_env (maxTestDuration S5_config) 0 =
     ([TripRead False, TripRead False, TripRead True], Some (True, 3 / 1000))"
  by (simp add: monitorTrip_def S5_env_def S5_config_def trunc_real_def Let_def
      monitorTrip_loop.simps(2))

theorem testPoint_sets_side_currents_first_witness:
  "setter_ok (pt_Ir S5_point + pt_Id S5_point / 2) = None
   \<and> setter_ok (- (pt_Ir S5_point - pt_Id S5_point / 2)) = None
   \<and> fst (testPoint setter_ok setter_ok S5_env S5_point S5_config) =
       [Side1Set 225, Side2Set (- 175), TripRead False, TripRead False, TripRead True]
   \<and> map_option res_Is1 (snd (testPoint setter_ok setter_ok S5_env S5_point S5_config)) = Some 225
   \<and> map_option res_Is2 (snd (testPoint setter_ok setter_ok S5_env S5_point S5_config)) = Some (- 175)
   \<and> map_option res_passed (snd (testPoint setter_ok setter_ok S5_env S5_point S5_config)) = Some True"
proof -
  have s: "setter_ok (pt_Ir S5_point + pt_Id S5_point / 2) = None"
    "setter_ok (- (pt_Ir S5_point - pt_Id S5_point / 2)) = None"
    by (simp_all add: setter_ok_def)
  have v: "pt_Ir S5_point + pt_Id S5_point / 2 = 225" "- (pt_Ir S5_point - pt_Id S5_point / 2) = - 175"
    by (simp_all add: S5_point_def)
  have t: "testPoint setter_ok setter_ok S5_env S5_point S5_config =
      ([Side1Set 225, Side2Set (- 175), TripRead False, TripRead False, TripRead True],
       Some \<lparr> res_Ir = 200, res_Id = 50, res_Is1 = 225, res_Is2 = - 175, res_tripped = True,
              res_tripTime = 3 / 1000, res_expectedTime = 0, res_passed = True,
              res_error = [] \<rparr>)"
    by (simp add: testPoint_def S5_monitor calculateSideCurrents_def setter_ok_def)
       (simp add: S5_point_def S5_config_def)
  show ?thesis
    using s v t
      testPoint_sets_side_currents_first [of S5_point setter_ok setter_ok S5_env S5_config
        "\<lparr> res_Ir = 200, res_Id = 50, res_Is1 = 225, res_Is2 = - 175, res_tripped = True,
              res_tripTime = 3 / 1000, res_expectedTime = 0, res_passed = True,
              res_error = [] \<rparr>"]
    by simp
qed


section \<open>Properties of the sequence engine\<close>


lemma emit_simps [simp]:
  "th_pos (emit e c) = th_pos c"
  "th_stopRequested (emit e c) = th_stopRequested c"
  "th_currentStateIndex (emit e c) = th_currentStateIndex c"
  "th_trace (emit e c) = th_trace c @ [e]"
  by (simp_all add: emit_def)

lemma load_stop_simps [simp]:
  "th_pos (load_stop ob c) = th_pos c"
  "th_currentStateIndex (load_stop ob c) = th_currentStateIndex c"
  "th_trace (load_stop ob c) = th_trace c"
  "th_stopRequested c \<Longrightarrow> th_stopRequested (load_stop ob c)"
  by (simp_all add: load_stop_def)

lemma store_index_simps [simp]:
  "th_pos (store_index j c) = th_pos c"
  "th_stopRequested (store_index j c) = th_stopRequested c"
  "th_currentStateIndex (store_index j c) = j"
  "th_trace (store_index j c) = th_trace c @ [SetIndex j]"
  by (simp_all add: store_index_def)

lemma store_status_simps [simp]:
  "th_pos (store_status s c) = th_pos c"
  "th_stopRequested (store_status s c) = th_stopRequested c"
  "th_currentStateIndex (store_status s c) = th_currentStateIndex c"
  "th_trace (store_status s c) = th_trace c @ [StatusStore s]"
  by (simp_all add: store_status_def)


lemma reportProgress_simps [simp]:
  "th_pos (reportProgress seq cbs msg c) = th_pos c"
  "th_stopRequested (reportProgress seq cbs msg c) = th_stopRequested c"
  "th_currentStateIndex (reportProgress seq cbs msg c) = th_currentStateIndex c"
  by (simp_all add: reportProgress_def Let_def)





text \<open>What an observation does to the reader.\<close>

lemma observed_simps [simp]:
  "mon_index (monitor_step seq m (Observed ob)) = mon_index m"
  "mon_ok (monitor_step seq m (Observed ob)) = mon_ok m"
  "mon_seen (monitor_step seq m (Observed ob)) = ob # mon_seen m"
  "mon_fired m \<Longrightarrow> mon_fired (monitor_step seq m (Observed ob))"
  by simp_all




declare monitor_step.simps(1) [simp del]




















text \<open>
  The order is not an empty requirement.  With the clock standing still, a history that
  stores the index 1 is not in order, whether or not the trip flag is seen in the first
  state, which is a \<open>TIME\<close> state; nor is a history that calls the phasor update callback
  before the index is stored, or with the phasors of the second state while the index is
  0.  With the two states in the other order the first state is a \<open>GOOSE_TRIP\<close> state:
  leaving it is in order after the trip flag has been seen, and not in order when
  neither the flag has been seen nor the clock has advanced.
\<close>

lemma in_order_rejects:
  "\<not> in_order example_sequence
       [Observed (quiet_at 0), Effect (SetIndex 0), Observed (quiet_at 0),
        Effect (PhasorUpdate ''SV1'' (example_phasors 60)), Observed (quiet_at 0),
        Observed (quiet_at 0), Effect (SetIndex 1)]"
  "\<not> in_order example_sequence
       [Observed (quiet_at 0), Effect (SetIndex 0), Observed (quiet_at 0),
        Effect (PhasorUpdate ''SV1'' (example_phasors 60)), Observed (tripped_at 0),
        Observed (quiet_at 0), Effect (SetIndex 1)]"
  "\<not> in_order example_sequence
       [Observed (quiet_at 0), Effect (PhasorUpdate ''SV1'' (example_phasors 60)),
        Effect (SetIndex 0)]"
  "\<not> in_order example_sequence
       [Observed (quiet_at 0), Effect (SetIndex 0), Observed (quiet_at 0),
        Effect (PhasorUpdate ''SV1'' (example_phasors 61))]"
  "in_order (example_sequence\<lparr>states := rev (states example_sequence)\<rparr>)
       [Observed (quiet_at 0), Effect (SetIndex 0), Observed (quiet_at 0),
        Observed (tripped_at 0), Effect (SetIndex 1)]"
  "\<not> in_order (example_sequence\<lparr>states := rev (states example_sequence)\<rparr>)
       [Observed (quiet_at 0), Effect (SetIndex 0), Observed (quiet_at 0),
        Observed (quiet_at 0), Effect (SetIndex 1)]"
  by (simp_all add: in_order_def monitor_start_def monitor_step.simps(1)
      transition_predicate_def example_sequence_def stateDuration_ns_def trunc_real_def
      quiet_at_def tripped_at_def example_phasors_def)

end
